theory Spec2Isabelle
  imports Main "HOL-Library.Multiset" "HOL-Library.Char_ord" "HOL-Library.List_Lexorder"
begin

section \<open>Data model of kgcr (main.go)\<close>

text \<open>
  Go strings are byte sequences and \<open><\<close> on them compares bytes lexicographically;
  \<open>string\<close> with the orders of \<open>Char_ord\<close> and \<open>List_Lexorder\<close> is the same order.
  The Kubernetes API types are reduced to the fields main.go reads.
\<close>

record CustomResourceDefinitionVersion =
  VersionName :: string
  Storage :: bool

record CustomResourceDefinitionNames =
  Plural :: string

record CustomResourceDefinitionSpec =
  Group :: string
  Names :: CustomResourceDefinitionNames
  Scope :: string
  Versions :: "CustomResourceDefinitionVersion list"

record CustomResourceDefinition =
  Name :: string
  Spec :: CustomResourceDefinitionSpec

record GroupVersionResource =
  gvrGroup :: string
  gvrVersion :: string
  gvrResource :: string

record foundResource =
  crdName :: string
  resourceName :: string
  instanceName :: string
  namespace :: string

record crdJob =
  crd :: CustomResourceDefinition
  storedVersion :: string
  gvr :: GroupVersionResource

section \<open>getStoredVersion\<close>

text \<open>The \<open>for ... range crd.Spec.Versions\<close> loop: it returns at the first version whose
  Storage flag is set; \<open>None\<close> means the loop ran to its end.\<close>

fun storageLoop :: "CustomResourceDefinitionVersion list \<Rightarrow> string option" where
  "storageLoop [] = None"
| "storageLoop (version # rest) =
     (if Storage version then Some (VersionName version) else storageLoop rest)"

definition getStoredVersion :: "CustomResourceDefinition \<Rightarrow> string" where
  "getStoredVersion c =
     (case storageLoop (Versions (Spec c)) of
        Some n \<Rightarrow> n
      | None \<Rightarrow>
          (if length (Versions (Spec c)) > 0 then VersionName (Versions (Spec c) ! 0)
           else ''''))"

section \<open>The CRD filter of main\<close>

definition mkGVR :: "CustomResourceDefinition \<Rightarrow> string \<Rightarrow> GroupVersionResource" where
  "mkGVR c sv = \<lparr> gvrGroup = Group (Spec c), gvrVersion = sv,
                  gvrResource = Plural (Names (Spec c)) \<rparr>"

text \<open>The loop over \<open>crdList.Items\<close> that builds \<open>namespacedCRDs\<close>; each \<open>continue\<close> is a
  branch that appends nothing.\<close>

fun filterCRDs :: "CustomResourceDefinition list \<Rightarrow> crdJob list" where
  "filterCRDs [] = []"
| "filterCRDs (c # rest) =
     (if Scope (Spec c) \<noteq> ''Namespaced'' then filterCRDs rest
      else let sv = getStoredVersion c in
        if sv = '''' then filterCRDs rest
        else \<lparr> crd = c, storedVersion = sv, gvr = mkGVR c sv \<rparr> # filterCRDs rest)"

section \<open>Flags and namespace resolution\<close>

record flags =
  namespaceFlag :: string
  allNamespacesFlag :: bool

text \<open>Lines 77-92 of main. \<open>currentContext\<close> is \<open>rawConfig.Contexts[currentContextName]\<close>:
  \<open>None\<close> for the nil pointer of a missing entry, otherwise the Namespace field of the
  context.\<close>

definition resolveNamespace :: "flags \<Rightarrow> string option \<Rightarrow> string" where
  "resolveNamespace fl currentContext =
     (let ns =
        (if namespaceFlag fl = '''' \<and> \<not> allNamespacesFlag fl then
           (case currentContext of
              Some ctxNs \<Rightarrow> if ctxNs \<noteq> '''' then ctxNs else ''default''
            | None \<Rightarrow> ''default'')
         else namespaceFlag fl)
      in if allNamespacesFlag fl then '''' else ns)"

section \<open>Worker count\<close>

text \<open>Go's \<open>int\<close> is 64 bits wide on the platforms kgcr is built for; the product
  \<open>runtime.NumCPU() * 3\<close> wraps around in two's complement.\<close>

definition wrap64 :: "int \<Rightarrow> int" where
  "wrap64 x = (x + 2 ^ 63) mod 2 ^ 64 - 2 ^ 63"

definition numWorkers :: "int \<Rightarrow> nat \<Rightarrow> int" where
  "numWorkers numCPU numJobs =
     (let n0 = wrap64 (numCPU * 3);
          n1 = (if n0 > int numJobs then int numJobs else n0);
          n2 = (if n1 > 20 then 20 else n1)
      in n2)"

section \<open>The instance query\<close>

record Unstructured =
  GetName :: string
  GetNamespace :: string

text \<open>The dynamic client: \<open>dc g None\<close> is \<open>Resource(g).List\<close>, the list across all
  namespaces, and \<open>dc g (Some ns)\<close> is \<open>Resource(g).Namespace(ns).List\<close>. An error
  (also the expiry of the five-second request context) is \<open>Inl\<close> of its message.\<close>

type_synonym dynamicClient = "GroupVersionResource \<Rightarrow> string option \<Rightarrow> string + Unstructured list"

definition listInstances ::
  "dynamicClient \<Rightarrow> GroupVersionResource \<Rightarrow> string \<Rightarrow> bool \<Rightarrow> string + Unstructured list" where
  "listInstances dc g ns allNamespaces =
     (if allNamespaces \<or> ns = '''' then dc g None else dc g (Some ns))"

definition foundOf :: "crdJob \<Rightarrow> Unstructured \<Rightarrow> foundResource" where
  "foundOf job item =
     \<lparr> crdName = Name (crd job), resourceName = gvrResource (gvr job),
       instanceName = GetName item, namespace = GetNamespace item \<rparr>"

section \<open>crdWorker\<close>

text \<open>
  One worker, run on the jobs it receives from the channel, in order. Each job comes with
  what the two \<open>select\<close> statements of that iteration observe: whether the one at the top
  of the loop takes \<open><-ctx.Done()\<close>, and whether the one around the send does. The result
  is the sequence of batches the worker sends on \<open>results\<close>. The slice that is sent is a
  fresh copy, so the reuse of \<open>workerResults\<close> in later iterations cannot change it.
\<close>

type_synonym pull = "crdJob \<times> bool \<times> bool"

fun crdWorker :: "dynamicClient \<Rightarrow> string \<Rightarrow> bool \<Rightarrow> pull list \<Rightarrow> foundResource list list" where
  "crdWorker dc ns allNamespaces [] = []"
| "crdWorker dc ns allNamespaces ((job, doneAtTop, doneAtSend) # rest) =
     (if doneAtTop then []
      else
        (case listInstances dc (gvr job) ns allNamespaces of
           Inl err \<Rightarrow> crdWorker dc ns allNamespaces rest
         | Inr items \<Rightarrow>
             (let workerResults =
                    (if length items > 0 then map (foundOf job) items else [])
              in if length workerResults > 0 then
                   (if doneAtSend then []
                    else workerResults # crdWorker dc ns allNamespaces rest)
                 else crdWorker dc ns allNamespaces rest)))"

section \<open>Scheduling\<close>

text \<open>
  What the Go scheduler and the timer decide, as data:
  \<^item> \<open>dispatchDone\<close>: for the i-th send of the dispatch loop, whether its \<open>select\<close> takes
    \<open><-ctx.Done()\<close>;
  \<open>jobs\<close> is buffered with room for every job, so the send itself is always ready;
  \<^item> \<open>pulls\<close>: for the i-th job of the queue, the worker that receives it and the two
    observations of \<open>ctx.Done()\<close> of that iteration; jobs beyond the end of the list are
    never received;
  \<^item> \<open>arrivals\<close>: the workers in the order in which their sends reach \<open>results\<close>.
\<close>

record schedule =
  dispatchDone :: "bool list"
  pulls :: "(nat \<times> bool \<times> bool) list"
  arrivals :: "nat list"

definition timeoutMessage :: string where
  "timeoutMessage = ''Timeout while sending jobs: context deadline exceeded''"

text \<open>The dispatch loop; \<open>Inl\<close> is the message of its \<open>log.Fatalf\<close>.\<close>

fun sendJobs :: "crdJob list \<Rightarrow> bool list \<Rightarrow> string + crdJob list" where
  "sendJobs [] ds = Inr []"
| "sendJobs (job # rest) [] =
     (case sendJobs rest [] of Inl m \<Rightarrow> Inl m | Inr q \<Rightarrow> Inr (job # q))"
| "sendJobs (job # rest) (d # ds) =
     (if d then Inl timeoutMessage
      else (case sendJobs rest ds of Inl m \<Rightarrow> Inl m | Inr q \<Rightarrow> Inr (job # q)))"

text \<open>The jobs worker \<open>w\<close> receives from the queue, in queue order.\<close>

fun workerPulls :: "nat \<Rightarrow> crdJob list \<Rightarrow> (nat \<times> bool \<times> bool) list \<Rightarrow> pull list" where
  "workerPulls w [] ps = []"
| "workerPulls w (job # rest) [] = []"
| "workerPulls w (job # rest) ((w', obs) # ps) =
     (if w' = w then (job, obs) # workerPulls w rest ps else workerPulls w rest ps)"

text \<open>The \<open>results\<close> channel: the next batch received is the next one of the worker named
  by the schedule; what the schedule leaves over follows in worker order.\<close>

fun interleave :: "nat list \<Rightarrow> 'a list list \<Rightarrow> 'a list" where
  "interleave [] qs = concat qs"
| "interleave (w # ws) qs =
     (if w < length qs then
        (case qs ! w of
           [] \<Rightarrow> interleave ws qs
         | b # bs \<Rightarrow> b # interleave ws (qs[w := bs]))
      else interleave ws qs)"

definition workerPool ::
  "dynamicClient \<Rightarrow> string \<Rightarrow> bool \<Rightarrow> nat \<Rightarrow> crdJob list \<Rightarrow> schedule \<Rightarrow> foundResource list list" where
  "workerPool dc ns allNamespaces n queue sched =
     interleave (arrivals sched)
       (map (\<lambda>w. crdWorker dc ns allNamespaces (workerPulls w queue (pulls sched))) [0..<n])"

section \<open>Sorting and rendering\<close>

text \<open>The \<open>less\<close> function given to \<open>sort.Slice\<close>.\<close>

definition resultLess :: "foundResource \<Rightarrow> foundResource \<Rightarrow> bool" where
  "resultLess a b =
     (if crdName a \<noteq> crdName b then crdName a < crdName b
      else if resourceName a \<noteq> resourceName b then resourceName a < resourceName b
      else if namespace a \<noteq> namespace b then namespace a < namespace b
      else instanceName a < instanceName b)"

text \<open>
  \<open>sort.Slice\<close> belongs to Go's standard library: it returns a permutation of the slice in
  which no element is \<open>less\<close> than one before it, and promises no stability. It is
  modelled by insertion sort; \<open>resultLess\<close> orders the records totally, so every
  sorting procedure returns the same slice (lemma \<open>sortSlice_any\<close> below).
\<close>

fun insertSorted :: "('a \<Rightarrow> 'a \<Rightarrow> bool) \<Rightarrow> 'a \<Rightarrow> 'a list \<Rightarrow> 'a list" where
  "insertSorted lt x [] = [x]"
| "insertSorted lt x (y # ys) = (if lt x y then x # y # ys else y # insertSorted lt x ys)"

fun sortSlice :: "('a \<Rightarrow> 'a \<Rightarrow> bool) \<Rightarrow> 'a list \<Rightarrow> 'a list" where
  "sortSlice lt [] = []"
| "sortSlice lt (x # xs) = insertSorted lt x (sortSlice lt xs)"

definition tab :: string where "tab = [CHR 0x09]"
definition newline :: string where "newline = [CHR 0x0A]"

definition header4 :: string where
  "header4 = ''NAMESPACE'' @ tab @ ''CRD'' @ tab @ ''RESOURCE'' @ tab @ ''NAME'' @ newline"

definition header3 :: string where
  "header3 = ''CRD'' @ tab @ ''RESOURCE'' @ tab @ ''NAME'' @ newline"

definition row4 :: "foundResource \<Rightarrow> string" where
  "row4 res = namespace res @ tab @ crdName res @ tab @ resourceName res @ tab
              @ instanceName res @ newline"

definition row3 :: "foundResource \<Rightarrow> string" where
  "row3 res = crdName res @ tab @ resourceName res @ tab @ instanceName res @ newline"

text \<open>
  What a run leaves behind: \<open>Fatal m\<close> is \<open>log.Fatalf\<close> (the message on standard error,
  exit status 1); \<open>Table t\<close> is the text \<open>t\<close> written through the tabwriter to standard
  output and \<open>Printed t\<close> the text written to standard output directly, both with main
  returning normally (exit status 0).
\<close>

datatype outcome = Fatal string | Printed string | Table string

definition render :: "bool \<Rightarrow> string \<Rightarrow> foundResource list \<Rightarrow> outcome" where
  "render allNamespaces ns allResults =
     (if length allResults > 0 then
        (if allNamespaces then
           Table (header4 @ concat (map row4 allResults))
         else
           Table (header3 @ concat (map row3 allResults)))
      else
        (if allNamespaces then Printed (''No custom resources found in any namespace'' @ newline)
         else Printed (''No custom resources found in namespace: '' @ ns @ newline)))"

section \<open>main\<close>

record run =
  workersStarted :: nat
  outcome :: outcome

text \<open>
  main from line 77 on, given the flags, the namespace of the current context, the number
  of CPUs, the answer of the CRD list call, the dynamic client and the schedule.
\<close>

definition main ::
  "flags \<Rightarrow> string option \<Rightarrow> int \<Rightarrow> string + CustomResourceDefinition list \<Rightarrow> dynamicClient
   \<Rightarrow> schedule \<Rightarrow> run" where
  "main fl currentContext numCPU crdList dc sched =
     (let ns = resolveNamespace fl currentContext;
          allNamespaces = allNamespacesFlag fl
      in case crdList of
           Inl err \<Rightarrow> \<lparr> workersStarted = 0, outcome = Fatal (''Error listing CRDs: '' @ err) \<rparr>
         | Inr items \<Rightarrow>
             (let namespacedCRDs = filterCRDs items in
              if length namespacedCRDs = 0 then
                \<lparr> workersStarted = 0,
                  outcome = Printed (''No namespaced custom resources found in cluster'' @ newline) \<rparr>
              else
                (let n = nat (numWorkers numCPU (length namespacedCRDs)) in
                 case sendJobs namespacedCRDs (dispatchDone sched) of
                   Inl m \<Rightarrow> \<lparr> workersStarted = n, outcome = Fatal m \<rparr>
                 | Inr queue \<Rightarrow>
                     (let allResults = concat (workerPool dc ns allNamespaces n queue sched);
                          sorted = sortSlice resultLess allResults
                      in \<lparr> workersStarted = n, outcome = render allNamespaces ns sorted \<rparr>))))"

section \<open>Notions used in the statements\<close>

text \<open>The order of the specification: crdName, then resourceName, then namespace, then
  instanceName, each ascending.\<close>

definition fourKeyLe :: "foundResource \<Rightarrow> foundResource \<Rightarrow> bool" where
  "fourKeyLe a b \<longleftrightarrow>
     crdName a < crdName b \<or>
     (crdName a = crdName b \<and>
       (resourceName a < resourceName b \<or>
         (resourceName a = resourceName b \<and>
           (namespace a < namespace b \<or>
             (namespace a = namespace b \<and> instanceName a \<le> instanceName b)))))"

text \<open>The batch of a job: the instances its query returns, tagged with the job; empty
  when the query fails.\<close>

definition batchOf :: "dynamicClient \<Rightarrow> string \<Rightarrow> bool \<Rightarrow> crdJob \<Rightarrow> foundResource list" where
  "batchOf dc ns allNamespaces job =
     (case listInstances dc (gvr job) ns allNamespaces of
        Inl err \<Rightarrow> []
      | Inr items \<Rightarrow> map (foundOf job) items)"

text \<open>The iteration at which a worker returns: it observes the deadline at the top of
  the loop, or at the send of a non-empty batch.\<close>

definition stops :: "dynamicClient \<Rightarrow> string \<Rightarrow> bool \<Rightarrow> pull \<Rightarrow> bool" where
  "stops dc ns allNamespaces p =
     (case p of (job, doneAtTop, doneAtSend) \<Rightarrow>
        doneAtTop \<or> (doneAtSend \<and> batchOf dc ns allNamespaces job \<noteq> []))"

text \<open>A schedule in which the deadline is never observed: every job is received by one
  of the \<open>n\<close> workers and no \<open>select\<close> takes \<open><-ctx.Done()\<close>.\<close>

definition deadlineFree :: "nat \<Rightarrow> nat \<Rightarrow> schedule \<Rightarrow> bool" where
  "deadlineFree n numJobs sched \<longleftrightarrow>
     list_all (\<lambda>d. \<not> d) (dispatchDone sched)
     \<and> numJobs \<le> length (pulls sched)
     \<and> list_all (\<lambda>(w, doneAtTop, doneAtSend). w < n \<and> \<not> doneAtTop \<and> \<not> doneAtSend)
          (pulls sched)"

definition mkVersion :: "string \<Rightarrow> bool \<Rightarrow> CustomResourceDefinitionVersion" where
  "mkVersion n s = \<lparr> VersionName = n, Storage = s \<rparr>"

definition mkCRD ::
  "string \<Rightarrow> string \<Rightarrow> string \<Rightarrow> string \<Rightarrow> CustomResourceDefinitionVersion list
   \<Rightarrow> CustomResourceDefinition" where
  "mkCRD n g p s vs =
     \<lparr> Name = n, Spec = \<lparr> Group = g, Names = \<lparr> Plural = p \<rparr>, Scope = s, Versions = vs \<rparr> \<rparr>"

definition eligible :: "CustomResourceDefinition \<Rightarrow> bool" where
  "eligible c \<longleftrightarrow> Scope (Spec c) = ''Namespaced'' \<and> getStoredVersion c \<noteq> ''''"

text \<open>A run in which the deadline is not observed, as a function of the catalog and the
  answers of the instance queries alone (lemma \<open>main_deadlineFree\<close> below).\<close>

definition completeRun ::
  "flags \<Rightarrow> string option \<Rightarrow> int \<Rightarrow> CustomResourceDefinition list \<Rightarrow> dynamicClient \<Rightarrow> run" where
  "completeRun fl currentContext numCPU items dc =
     (if filterCRDs items = [] then
        \<lparr> workersStarted = 0,
          outcome = Printed (''No namespaced custom resources found in cluster'' @ newline) \<rparr>
      else
        \<lparr> workersStarted = nat (numWorkers numCPU (length (filterCRDs items))),
          outcome = render (allNamespacesFlag fl) (resolveNamespace fl currentContext)
            (sortSlice resultLess (concat (map
               (batchOf dc (resolveNamespace fl currentContext) (allNamespacesFlag fl))
               (filterCRDs items)))) \<rparr>)"

text \<open>
  What the two observations of a pull stand for. The \<open>select\<close> at the top of the loop
  has a default branch, so it takes \<open><-ctx.Done()\<close> exactly when the deadline has
  expired. At the send, \<open>results\<close> has room for every batch, so once the deadline has
  expired both branches are ready and the runtime picks one of them. \<open>observe\<close> turns a
  job with the state of the deadline at the top, its state at the send, and whether the
  runtime then picks \<open><-ctx.Done()\<close>, into the pull.
\<close>

definition observe :: "crdJob \<times> bool \<times> bool \<times> bool \<Rightarrow> pull" where
  "observe t =
     (case t of (job, expiredAtTop, expiredAtSend, picksDone) \<Rightarrow>
        (job, expiredAtTop, expiredAtSend \<and> picksDone))"

section \<open>The scenario of the specification\<close>

text \<open>Two eligible CRDs: widgets (v1 is the storage version) with the instance foo in
  ns1, and gadgets (v1, and v2 the storage version) with bar in ns1 and baz in ns2.\<close>

definition widgets :: CustomResourceDefinition where
  "widgets = mkCRD ''widgets.example.io'' ''example.io'' ''widgets'' ''Namespaced''
     [mkVersion ''v1'' True]"

definition gadgets :: CustomResourceDefinition where
  "gadgets = mkCRD ''gadgets.example.io'' ''example.io'' ''gadgets'' ''Namespaced''
     [mkVersion ''v1'' False, mkVersion ''v2'' True]"

definition mkItem :: "string \<Rightarrow> string \<Rightarrow> Unstructured" where
  "mkItem n ns = \<lparr> GetName = n, GetNamespace = ns \<rparr>"

definition mkFound :: "string \<Rightarrow> string \<Rightarrow> string \<Rightarrow> string \<Rightarrow> foundResource" where
  "mkFound c r i ns = \<lparr> crdName = c, resourceName = r, instanceName = i, namespace = ns \<rparr>"

definition widgetsJob :: crdJob where
  "widgetsJob = \<lparr> crd = widgets, storedVersion = ''v1'',
     gvr = \<lparr> gvrGroup = ''example.io'', gvrVersion = ''v1'', gvrResource = ''widgets'' \<rparr> \<rparr>"

definition gadgetsJob :: crdJob where
  "gadgetsJob = \<lparr> crd = gadgets, storedVersion = ''v2'',
     gvr = \<lparr> gvrGroup = ''example.io'', gvrVersion = ''v2'', gvrResource = ''gadgets'' \<rparr> \<rparr>"

text \<open>The cluster: the answers to the two kinds of list call.\<close>

definition cluster :: dynamicClient where
  "cluster g target =
     (if gvrResource g = ''widgets'' then
        (case target of
           None \<Rightarrow> Inr [mkItem ''foo'' ''ns1'']
         | Some ns \<Rightarrow> Inr (filter (\<lambda>i. GetNamespace i = ns) [mkItem ''foo'' ''ns1'']))
      else if gvrResource g = ''gadgets'' then
        (case target of
           None \<Rightarrow> Inr [mkItem ''baz'' ''ns2'', mkItem ''bar'' ''ns1'']
         | Some ns \<Rightarrow> Inr (filter (\<lambda>i. GetNamespace i = ns)
             [mkItem ''baz'' ''ns2'', mkItem ''bar'' ''ns1'']))
      else Inl ''the server could not find the requested resource'')"

text \<open>The same cluster with the gadgets query refused, and one without instances.\<close>

definition clusterGadgetsForbidden :: dynamicClient where
  "clusterGadgetsForbidden g target =
     (if gvrResource g = ''gadgets'' then Inl ''forbidden'' else cluster g target)"

definition emptyCluster :: dynamicClient where
  "emptyCluster g target = Inr []"

definition flagsAll :: flags where
  "flagsAll = \<lparr> namespaceFlag = ''ns1'', allNamespacesFlag = True \<rparr>"

text \<open>Schedules for two workers: each job on its own worker, the batch of gadgets
  arriving first; both jobs on worker 0; the deadline observed by both workers before
  their first job; the deadline observed by worker 1 only, before its job; the deadline
  observed by worker 1 at the send of the first job's batch; the deadline observed by
  the second send of the dispatch loop, after worker 0 ran its job.\<close>

definition schedA :: schedule where
  "schedA = \<lparr> dispatchDone = [], pulls = [(0, False, False), (1, False, False)],
     arrivals = [1, 0] \<rparr>"

definition schedB :: schedule where
  "schedB = \<lparr> dispatchDone = [False, False], pulls = [(0, False, False), (0, False, False)],
     arrivals = [0, 0] \<rparr>"

definition schedCut :: schedule where
  "schedCut = \<lparr> dispatchDone = [], pulls = [(0, True, False), (1, True, False)],
     arrivals = [] \<rparr>"

definition schedPartial :: schedule where
  "schedPartial = \<lparr> dispatchDone = [], pulls = [(0, False, False), (1, True, False)],
     arrivals = [0] \<rparr>"

definition schedDrop :: schedule where
  "schedDrop = \<lparr> dispatchDone = [], pulls = [(1, False, True), (0, False, False)],
     arrivals = [] \<rparr>"

definition schedDispatchCut :: schedule where
  "schedDispatchCut = \<lparr> dispatchDone = [False, True], pulls = [(0, False, False)],
     arrivals = [0] \<rparr>"

section \<open>Storage-version resolution\<close>

lemma storageLoop_find:
  "storageLoop vs = map_option VersionName (List.find Storage vs)"
  by (induction vs) simp_all

lemma storageLoop_None_iff: "storageLoop vs = None \<longleftrightarrow> (\<forall>v \<in> set vs. \<not> Storage v)"
  by (induction vs) simp_all

lemma storageLoop_first:
  "\<forall>u \<in> set pre. \<not> Storage u \<Longrightarrow> Storage v \<Longrightarrow>
   storageLoop (pre @ v # post) = Some (VersionName v)"
  by (induction pre) simp_all

text \<open>
  C2. Storage-version resolution returns the name of the version flagged as the storage
  version; when no version is flagged it returns the first declared version; when no
  version is declared it returns the empty string and the filter drops the CRD. The
  three examples of the specification are evaluated as well.
\<close>

theorem getStoredVersion_rule:
  "(List.find Storage (Versions (Spec c)) = Some v \<longrightarrow> getStoredVersion c = VersionName v)
   \<and> ((\<forall>u \<in> set (Versions (Spec c)). \<not> Storage u) \<and> Versions (Spec c) = w # ws
        \<longrightarrow> getStoredVersion c = VersionName w)
   \<and> (Versions (Spec c) = [] \<longrightarrow> getStoredVersion c = '''' \<and> filterCRDs [c] = [])
   \<and> getStoredVersion (mkCRD n g p s [mkVersion ''v1'' False, mkVersion ''v2'' True]) = ''v2''
   \<and> getStoredVersion (mkCRD n g p s [mkVersion ''v1'' False, mkVersion ''v2'' False]) = ''v1''
   \<and> getStoredVersion (mkCRD n g p s []) = ''''
   \<and> filterCRDs [mkCRD n g p s []] = []"
proof -
  have flagged: "List.find Storage (Versions (Spec c)) = Some v \<longrightarrow>
      getStoredVersion c = VersionName v"
    by (simp add: getStoredVersion_def storageLoop_find)
  have fallback: "(\<forall>u \<in> set (Versions (Spec c)). \<not> Storage u) \<and> Versions (Spec c) = w # ws
      \<longrightarrow> getStoredVersion c = VersionName w"
  proof (intro impI, elim conjE)
    assume none: "\<forall>u \<in> set (Versions (Spec c)). \<not> Storage u"
      and vs: "Versions (Spec c) = w # ws"
    from none have "storageLoop (Versions (Spec c)) = None"
      by (simp only: storageLoop_None_iff)
    with vs show "getStoredVersion c = VersionName w"
      by (simp add: getStoredVersion_def)
  qed
  have empty: "Versions (Spec c) = [] \<longrightarrow> getStoredVersion c = '''' \<and> filterCRDs [c] = []"
    by (simp add: getStoredVersion_def)
  have ex1: "getStoredVersion (mkCRD n g p s [mkVersion ''v1'' False, mkVersion ''v2'' True])
      = ''v2''"
    by (simp add: getStoredVersion_def mkCRD_def mkVersion_def)
  have ex2: "getStoredVersion (mkCRD n g p s [mkVersion ''v1'' False, mkVersion ''v2'' False])
      = ''v1''"
    by (simp add: getStoredVersion_def mkCRD_def mkVersion_def)
  have ex3: "getStoredVersion (mkCRD n g p s []) = ''''"
    by (simp add: getStoredVersion_def mkCRD_def)
  have ex4: "filterCRDs [mkCRD n g p s []] = []"
    by (simp add: getStoredVersion_def mkCRD_def)
  from flagged fallback empty ex1 ex2 ex3 ex4 show ?thesis by blast
qed

theorem getStoredVersion_rule_witness:
  "List.find Storage (Versions (Spec (mkCRD ''a.x'' ''x'' ''a'' ''Namespaced''
        [mkVersion ''v1'' False, mkVersion ''v2'' True]))) = Some (mkVersion ''v2'' True)
   \<and> getStoredVersion (mkCRD ''a.x'' ''x'' ''a'' ''Namespaced''
        [mkVersion ''v1'' False, mkVersion ''v2'' True]) = ''v2''
   \<and> list_all (\<lambda>u. \<not> Storage u) (Versions (Spec (mkCRD ''b.x'' ''x'' ''b'' ''Namespaced''
        [mkVersion ''v1'' False, mkVersion ''v2'' False])))
   \<and> getStoredVersion (mkCRD ''b.x'' ''x'' ''b'' ''Namespaced''
        [mkVersion ''v1'' False, mkVersion ''v2'' False]) = ''v1''
   \<and> Versions (Spec (mkCRD ''c.x'' ''x'' ''c'' ''Namespaced'' [])) = []
   \<and> filterCRDs [mkCRD ''c.x'' ''x'' ''c'' ''Namespaced'' []] = []"
  using getStoredVersion_rule [of "mkCRD ''a.x'' ''x'' ''a'' ''Namespaced''
        [mkVersion ''v1'' False, mkVersion ''v2'' True]" "mkVersion ''v2'' True"
        "mkVersion ''v1'' False" "[mkVersion ''v2'' True]"]
    getStoredVersion_rule [of "mkCRD ''b.x'' ''x'' ''b'' ''Namespaced''
        [mkVersion ''v1'' False, mkVersion ''v2'' False]" "mkVersion ''v1'' False"
        "mkVersion ''v1'' False" "[mkVersion ''v2'' False]"]
    getStoredVersion_rule [of "mkCRD ''c.x'' ''x'' ''c'' ''Namespaced'' []"]
  by (simp add: mkCRD_def mkVersion_def)

text \<open>
  C10. When several versions carry the storage flag, resolution returns the first flagged
  one in declaration order: whatever follows the first flagged version is never read.
\<close>

theorem getStoredVersion_first_flagged:
  assumes "Versions (Spec c) = pre @ v # post"
    and "\<forall>u \<in> set pre. \<not> Storage u"
    and "Storage v"
  shows "getStoredVersion c = VersionName v"
  using assms by (simp add: getStoredVersion_def storageLoop_first)

theorem getStoredVersion_first_flagged_witness:
  "Versions (Spec (mkCRD ''a.x'' ''x'' ''a'' ''Namespaced''
       [mkVersion ''v1'' False, mkVersion ''v2'' True, mkVersion ''v3'' True]))
     = [mkVersion ''v1'' False] @ mkVersion ''v2'' True # [mkVersion ''v3'' True]
   \<and> list_all (\<lambda>u. \<not> Storage u) [mkVersion ''v1'' False]
   \<and> Storage (mkVersion ''v2'' True)
   \<and> Storage (mkVersion ''v3'' True)
   \<and> getStoredVersion (mkCRD ''a.x'' ''x'' ''a'' ''Namespaced''
       [mkVersion ''v1'' False, mkVersion ''v2'' True, mkVersion ''v3'' True]) = ''v2''"
proof -
  let ?c = "mkCRD ''a.x'' ''x'' ''a'' ''Namespaced''
       [mkVersion ''v1'' False, mkVersion ''v2'' True, mkVersion ''v3'' True]"
  have h1: "Versions (Spec ?c)
      = [mkVersion ''v1'' False] @ mkVersion ''v2'' True # [mkVersion ''v3'' True]"
    by (simp add: mkCRD_def)
  have h2: "\<forall>u \<in> set [mkVersion ''v1'' False]. \<not> Storage u"
    by (simp add: mkVersion_def)
  have h3: "Storage (mkVersion ''v2'' True)"
    by (simp add: mkVersion_def)
  have h4: "Storage (mkVersion ''v3'' True)"
    by (simp add: mkVersion_def)
  from getStoredVersion_first_flagged [OF h1 h2 h3]
  have "getStoredVersion ?c = ''v2''"
    by (simp add: mkVersion_def)
  with h1 h2 h3 h4 show ?thesis by (simp add: list_all_iff)
qed

section \<open>The filter keeps exactly the eligible descriptors\<close>

lemma filterCRDs_crds: "map crd (filterCRDs crds) = filter eligible crds"
  by (induction crds) (simp_all add: eligible_def Let_def)

lemma filterCRDs_fields:
  "j \<in> set (filterCRDs crds) \<Longrightarrow>
   storedVersion j = getStoredVersion (crd j) \<and> gvr j = mkGVR (crd j) (getStoredVersion (crd j))"
  by (induction crds) (auto simp add: Let_def split: if_splits)

lemma versionless_unresolved: "Versions (Spec c) = [] \<Longrightarrow> getStoredVersion c = ''''"
  by (simp add: getStoredVersion_def)

text \<open>
  C1. The filter yields one job for each descriptor, in catalog order, whose scope is
  Namespaced and whose resolved storage version is non-empty, and for no other; the job
  carries that version and the coordinate built from it. A cluster-scoped descriptor and
  a descriptor without versions never yield a job.
\<close>

theorem filterCRDs_exact:
  "map crd (filterCRDs crds)
     = filter (\<lambda>c. Scope (Spec c) = ''Namespaced'' \<and> getStoredVersion c \<noteq> '''') crds
   \<and> (\<forall>j \<in> set (filterCRDs crds).
        storedVersion j = getStoredVersion (crd j)
        \<and> gvr j = \<lparr> gvrGroup = Group (Spec (crd j)), gvrVersion = getStoredVersion (crd j),
                    gvrResource = Plural (Names (Spec (crd j))) \<rparr>)
   \<and> (\<forall>c \<in> set crds. Scope (Spec c) \<noteq> ''Namespaced'' \<or> Versions (Spec c) = []
        \<longrightarrow> c \<notin> crd ` set (filterCRDs crds))"
proof -
  have a: "map crd (filterCRDs crds)
      = filter (\<lambda>c. Scope (Spec c) = ''Namespaced'' \<and> getStoredVersion c \<noteq> '''') crds"
    using filterCRDs_crds [of crds] by (simp add: eligible_def [abs_def])
  have b: "\<forall>j \<in> set (filterCRDs crds).
        storedVersion j = getStoredVersion (crd j)
        \<and> gvr j = \<lparr> gvrGroup = Group (Spec (crd j)), gvrVersion = getStoredVersion (crd j),
                    gvrResource = Plural (Names (Spec (crd j))) \<rparr>"
    using filterCRDs_fields [of _ crds] by (simp add: mkGVR_def)
  have c: "\<forall>c \<in> set crds. Scope (Spec c) \<noteq> ''Namespaced'' \<or> Versions (Spec c) = []
        \<longrightarrow> c \<notin> crd ` set (filterCRDs crds)"
  proof (intro ballI impI)
    fix c assume "c \<in> set crds"
      and bad: "Scope (Spec c) \<noteq> ''Namespaced'' \<or> Versions (Spec c) = []"
    have "crd ` set (filterCRDs crds) = set (filter eligible crds)"
      using filterCRDs_crds [of crds] by (metis set_map)
    moreover from bad have "\<not> eligible c"
      by (auto simp add: eligible_def versionless_unresolved)
    ultimately show "c \<notin> crd ` set (filterCRDs crds)" by simp
  qed
  from a b c show ?thesis by blast
qed

theorem filterCRDs_exact_witness:
  "map crd (filterCRDs
      [mkCRD ''nodes.x'' ''x'' ''nodes'' ''Cluster'' [mkVersion ''v1'' True],
       mkCRD ''widgets.x'' ''x'' ''widgets'' ''Namespaced'' [mkVersion ''v1'' True],
       mkCRD ''empties.x'' ''x'' ''empties'' ''Namespaced'' []])
     = [mkCRD ''widgets.x'' ''x'' ''widgets'' ''Namespaced'' [mkVersion ''v1'' True]]
   \<and> map gvr (filterCRDs
      [mkCRD ''nodes.x'' ''x'' ''nodes'' ''Cluster'' [mkVersion ''v1'' True],
       mkCRD ''widgets.x'' ''x'' ''widgets'' ''Namespaced'' [mkVersion ''v1'' True],
       mkCRD ''empties.x'' ''x'' ''empties'' ''Namespaced'' []])
     = [\<lparr> gvrGroup = ''x'', gvrVersion = ''v1'', gvrResource = ''widgets'' \<rparr>]"
  using filterCRDs_exact [of
      "[mkCRD ''nodes.x'' ''x'' ''nodes'' ''Cluster'' [mkVersion ''v1'' True],
        mkCRD ''widgets.x'' ''x'' ''widgets'' ''Namespaced'' [mkVersion ''v1'' True],
        mkCRD ''empties.x'' ''x'' ''empties'' ''Namespaced'' []]"]
  by (simp add: mkCRD_def mkVersion_def getStoredVersion_def mkGVR_def Let_def)

section \<open>The sorter\<close>

lemma fourKeyLe_iff: "fourKeyLe a b \<longleftrightarrow> \<not> resultLess b a"
  by (auto simp add: fourKeyLe_def resultLess_def)

lemma fourKeyLe_total: "fourKeyLe a b \<or> fourKeyLe b a"
  unfolding fourKeyLe_def
  using linorder_less_linear [of "crdName a" "crdName b"]
    linorder_less_linear [of "resourceName a" "resourceName b"]
    linorder_less_linear [of "namespace a" "namespace b"]
    linear [of "instanceName a" "instanceName b"]
  by auto

lemma lex_step:
  fixes x1 :: "'a::order"
  assumes "x1 < x2 \<or> (x1 = x2 \<and> P)" and "x2 < x3 \<or> (x2 = x3 \<and> Q)"
    and "P \<Longrightarrow> Q \<Longrightarrow> R"
  shows "x1 < x3 \<or> (x1 = x3 \<and> R)"
  using assms by (auto intro: less_trans)

lemma fourKeyLe_trans: "fourKeyLe a b \<Longrightarrow> fourKeyLe b c \<Longrightarrow> fourKeyLe a c"
  unfolding fourKeyLe_def
  by (erule lex_step, assumption)+ (rule order_trans)

lemma fourKeyLe_antisym: "fourKeyLe a b \<Longrightarrow> fourKeyLe b a \<Longrightarrow> a = (b::foundResource)"
  by (auto simp add: fourKeyLe_def)

lemma mset_insertSorted: "mset (insertSorted lt x xs) = add_mset x (mset xs)"
  by (induction xs) simp_all

lemma mset_sortSlice: "mset (sortSlice lt xs) = mset xs"
  by (induction xs) (simp_all add: mset_insertSorted)

lemma set_insertSorted: "set (insertSorted lt x xs) = insert x (set xs)"
  by (induction xs) auto

lemma set_sortSlice: "set (sortSlice lt xs) = set xs"
  using mset_sortSlice [of lt xs] by (metis set_mset_mset)

lemma length_sortSlice: "length (sortSlice lt xs) = length xs"
  using mset_sortSlice [of lt xs] by (metis size_mset)

lemma sorted_insertSorted:
  "sorted_wrt fourKeyLe xs \<Longrightarrow> sorted_wrt fourKeyLe (insertSorted resultLess x xs)"
proof (induction xs)
  case Nil
  then show ?case by simp
next
  case (Cons y ys)
  show ?case
  proof (cases "resultLess x y")
    case True
    then have xy: "fourKeyLe x y"
      using fourKeyLe_iff fourKeyLe_total by blast
    with Cons.prems have "\<forall>z \<in> set ys. fourKeyLe x z"
      by (auto intro: fourKeyLe_trans)
    with True xy Cons.prems show ?thesis by simp
  next
    case False
    then have "fourKeyLe y x" by (simp add: fourKeyLe_iff)
    with False Cons show ?thesis by (auto simp add: set_insertSorted)
  qed
qed

lemma sorted_sortSlice: "sorted_wrt fourKeyLe (sortSlice resultLess xs)"
  by (induction xs) (simp_all add: sorted_insertSorted)

text \<open>Two sorted arrangements of the same results are the same list.\<close>

lemma sorted_fourKeyLe_unique:
  "mset xs = mset ys \<Longrightarrow> sorted_wrt fourKeyLe xs \<Longrightarrow> sorted_wrt fourKeyLe ys \<Longrightarrow> xs = ys"
proof (induction xs arbitrary: ys)
  case Nil
  then show ?case by simp
next
  case (Cons x xs)
  from Cons.prems(1) obtain y ys' where ys: "ys = y # ys'"
    by (cases ys) auto
  have "x \<in> set ys"
    using Cons.prems(1) by (metis list.set_intros(1) mset_eq_setD)
  then have yx: "fourKeyLe y x"
    using Cons.prems(3) ys fourKeyLe_total by auto
  have "y \<in> set (x # xs)"
    using Cons.prems(1) ys by (metis list.set_intros(1) mset_eq_setD)
  then have xy: "fourKeyLe x y"
    using Cons.prems(2) fourKeyLe_total by auto
  from xy yx have "x = y" by (rule fourKeyLe_antisym)
  with Cons ys show ?case by simp
qed

lemma sortSlice_cong:
  "mset xs = mset ys \<Longrightarrow> sortSlice resultLess xs = sortSlice resultLess ys"
  by (rule sorted_fourKeyLe_unique) (simp_all add: mset_sortSlice sorted_sortSlice)

text \<open>Whatever procedure \<open>sort.Slice\<close> runs, a result that meets its contract is the
  list \<open>sortSlice\<close> computes.\<close>

lemma sortSlice_any:
  assumes "mset ys = mset xs" and "sorted_wrt (\<lambda>a b. \<not> resultLess b a) ys"
  shows "ys = sortSlice resultLess xs"
proof (rule sorted_fourKeyLe_unique)
  show "mset ys = mset (sortSlice resultLess xs)"
    using assms(1) by (simp add: mset_sortSlice)
  show "sorted_wrt fourKeyLe ys"
    using assms(2) by (simp add: fourKeyLe_iff [abs_def])
  show "sorted_wrt fourKeyLe (sortSlice resultLess xs)"
    by (rule sorted_sortSlice)
qed


section \<open>The worker loop\<close>

lemma crdWorker_takeWhile:
  "crdWorker dc ns alln ps =
     filter (\<lambda>b. b \<noteq> [])
       (map (\<lambda>p. batchOf dc ns alln (fst p)) (takeWhile (\<lambda>p. \<not> stops dc ns alln p) ps))"
proof (induction ps)
  case Nil
  show ?case by simp
next
  case (Cons p ps)
  obtain job doneAtTop doneAtSend where p: "p = (job, doneAtTop, doneAtSend)"
    by (cases p) auto
  show ?case
  proof (cases "listInstances dc (gvr job) ns alln")
    case (Inl err)
    with Cons p show ?thesis by (simp add: stops_def batchOf_def)
  next
    case (Inr items)
    with Cons p show ?thesis by (cases items) (simp_all add: stops_def batchOf_def)
  qed
qed

lemma crdWorker_deadlineFree:
  assumes "list_all (\<lambda>(job, doneAtTop, doneAtSend). \<not> doneAtTop \<and> \<not> doneAtSend) ps"
  shows "concat (crdWorker dc ns alln ps) = concat (map (\<lambda>p. batchOf dc ns alln (fst p)) ps)"
proof -
  from assms have "takeWhile (\<lambda>p. \<not> stops dc ns alln p) ps = ps"
    by (induction ps) (auto simp add: stops_def)
  then have "crdWorker dc ns alln ps
      = filter (\<lambda>b. b \<noteq> []) (map (\<lambda>p. batchOf dc ns alln (fst p)) ps)"
    by (simp only: crdWorker_takeWhile)
  moreover have "concat (filter (\<lambda>b. b \<noteq> []) bs) = concat bs" for bs :: "foundResource list list"
    by (induction bs) simp_all
  ultimately show ?thesis by simp
qed

section \<open>The channels\<close>

lemma sendJobs_queue: "sendJobs jobs ds = Inr q \<Longrightarrow> q = jobs"
  by (induction jobs ds arbitrary: q rule: sendJobs.induct)
    (auto split: sum.splits if_splits)

lemma sendJobs_message: "sendJobs jobs ds = Inl m \<Longrightarrow> m = timeoutMessage"
  by (induction jobs ds rule: sendJobs.induct) (auto split: sum.splits if_splits)

lemma sendJobs_Inl_iff:
  "(\<exists>m. sendJobs jobs ds = Inl m) \<longleftrightarrow> True \<in> set (take (length jobs) ds)"
  by (induction jobs ds rule: sendJobs.induct) (auto split: sum.splits if_splits)

lemma sendJobs_deadlineFree: "list_all (\<lambda>d. \<not> d) ds \<Longrightarrow> sendJobs jobs ds = Inr jobs"
  by (induction jobs ds rule: sendJobs.induct) simp_all

lemma mset_concat_update:
  assumes "w < length qs" and "qs ! w = b # bs"
  shows "add_mset b (mset (concat (qs[w := bs]))) = mset (concat qs)"
proof -
  from assms have "qs = take w qs @ (b # bs) # drop (Suc w) qs"
    by (metis id_take_nth_drop)
  moreover from assms(1) have "qs[w := bs] = take w qs @ bs # drop (Suc w) qs"
    by (rule upd_conv_take_nth_drop)
  ultimately have "mset (concat qs)
      = mset (concat (take w qs)) + add_mset b (mset bs) + mset (concat (drop (Suc w) qs))"
    and "mset (concat (qs[w := bs]))
      = mset (concat (take w qs)) + mset bs + mset (concat (drop (Suc w) qs))"
    by (metis concat.simps(2) concat_append mset.simps(2) mset_append add.assoc)+
  then show ?thesis by simp
qed

text \<open>Whatever the schedule, the aggregator receives every batch that was sent, once.\<close>

lemma mset_interleave: "mset (interleave ws qs) = mset (concat qs)"
proof (induction ws arbitrary: qs)
  case Nil
  show ?case by simp
next
  case (Cons w ws)
  show ?case
  proof (cases "w < length qs")
    case False
    with Cons show ?thesis by simp
  next
    case True
    show ?thesis
    proof (cases "qs ! w")
      case Nil
      with True Cons show ?thesis by simp
    next
      case (Cons b bs)
      with True Cons.IH [of "qs[w := bs]"] mset_concat_update [of w qs b bs]
      show ?thesis by simp
    qed
  qed
qed

lemma mset_concat_cong: "mset xss = mset yss \<Longrightarrow> mset (concat xss) = mset (concat yss)"
  by (simp add: mset_concat) (metis sum_mset_sum_list mset_map)

lemma mset_concat_concat_map:
  "mset (concat (concat (map g xs))) = (\<Sum>x\<leftarrow>xs. mset (concat (g x)))"
  by (induction xs) simp_all

lemma mset_concat_interleave: "mset (concat (interleave ws qs)) = mset (concat (concat qs))"
  by (rule mset_concat_cong) (rule mset_interleave)

section \<open>Runs in which the deadline is not observed\<close>

lemma workerPulls_deadlineFree:
  "list_all (\<lambda>(w, doneAtTop, doneAtSend). w < n \<and> \<not> doneAtTop \<and> \<not> doneAtSend) ps \<Longrightarrow>
   list_all (\<lambda>(job, doneAtTop, doneAtSend). \<not> doneAtTop \<and> \<not> doneAtSend) (workerPulls w jobs ps)"
  by (induction w jobs ps rule: workerPulls.induct) auto

lemma sum_list_delta:
  fixes B :: "'a multiset"
  shows "(\<Sum>w\<leftarrow>[0..<n]. (if w' = w then B else {#}) + Y w)
     = (if w' < n then B else {#}) + (\<Sum>w\<leftarrow>[0..<n]. Y w)"
  by (induction n) (auto simp add: ac_simps)

lemma workerPulls_cover:
  assumes "list_all (\<lambda>(w, doneAtTop, doneAtSend). w < n \<and> \<not> doneAtTop \<and> \<not> doneAtSend) ps"
    and "length jobs \<le> length ps"
  shows "(\<Sum>w\<leftarrow>[0..<n]. mset (concat (map (\<lambda>p. f (fst p)) (workerPulls w jobs ps))))
     = mset (concat (map f jobs))"
  using assms
proof (induction jobs arbitrary: ps)
  case Nil
  show ?case by (simp add: sum_list_0)
next
  case (Cons job rest)
  from Cons.prems(2) obtain w' obs ps' where ps: "ps = (w', obs) # ps'"
    by (cases ps) auto
  from Cons.prems ps have w': "w' < n" and rest: "length rest \<le> length ps'"
    and all: "list_all (\<lambda>(w, doneAtTop, doneAtSend). w < n \<and> \<not> doneAtTop \<and> \<not> doneAtSend) ps'"
    by auto
  have "(\<Sum>w\<leftarrow>[0..<n]. mset (concat (map (\<lambda>p. f (fst p)) (workerPulls w (job # rest) ps))))
      = (\<Sum>w\<leftarrow>[0..<n]. (if w' = w then mset (f job) else {#})
           + mset (concat (map (\<lambda>p. f (fst p)) (workerPulls w rest ps'))))"
    by (rule arg_cong [where f = sum_list]) (simp add: ps)
  also have "\<dots> = mset (f job)
      + (\<Sum>w\<leftarrow>[0..<n]. mset (concat (map (\<lambda>p. f (fst p)) (workerPulls w rest ps'))))"
    using w' by (simp add: sum_list_delta)
  also have "\<dots> = mset (f job) + mset (concat (map f rest))"
    using Cons.IH [OF all rest] by simp
  finally show ?case by simp
qed

lemma workerPool_deadlineFree:
  assumes "deadlineFree n (length jobs) sched"
  shows "mset (concat (workerPool dc ns alln n jobs sched))
     = mset (concat (map (batchOf dc ns alln) jobs))"
proof -
  let ?ok = "\<lambda>(w, doneAtTop, doneAtSend). w < n \<and> \<not> doneAtTop \<and> \<not> doneAtSend"
  from assms have ok: "list_all ?ok (pulls sched)" and len: "length jobs \<le> length (pulls sched)"
    by (simp_all add: deadlineFree_def)
  have "mset (concat (workerPool dc ns alln n jobs sched))
      = mset (concat (concat (map (\<lambda>w. crdWorker dc ns alln
            (workerPulls w jobs (pulls sched))) [0..<n])))"
    by (simp add: workerPool_def mset_concat_interleave)
  also have "\<dots> = (\<Sum>w\<leftarrow>[0..<n]. mset (concat (crdWorker dc ns alln
            (workerPulls w jobs (pulls sched)))))"
    by (rule mset_concat_concat_map)
  also have "\<dots> = (\<Sum>w\<leftarrow>[0..<n]. mset (concat (map (\<lambda>p. batchOf dc ns alln (fst p))
            (workerPulls w jobs (pulls sched)))))"
    using crdWorker_deadlineFree [OF workerPulls_deadlineFree [OF ok]] by simp
  also have "\<dots> = mset (concat (map (batchOf dc ns alln) jobs))"
    by (rule workerPulls_cover [OF ok len])
  finally show ?thesis .
qed

lemma main_deadlineFree:
  assumes "deadlineFree (nat (numWorkers numCPU (length (filterCRDs items))))
             (length (filterCRDs items)) sched"
  shows "main fl currentContext numCPU (Inr items) dc sched
     = completeRun fl currentContext numCPU items dc"
proof (cases "filterCRDs items = []")
  case True
  then show ?thesis by (simp add: main_def completeRun_def)
next
  case False
  from assms have "sendJobs (filterCRDs items) (dispatchDone sched) = Inr (filterCRDs items)"
    by (simp add: deadlineFree_def sendJobs_deadlineFree)
  moreover have "sortSlice resultLess (concat (workerPool dc (resolveNamespace fl currentContext)
        (allNamespacesFlag fl) (nat (numWorkers numCPU (length (filterCRDs items))))
        (filterCRDs items) sched))
      = sortSlice resultLess (concat (map
          (batchOf dc (resolveNamespace fl currentContext) (allNamespacesFlag fl))
          (filterCRDs items)))"
    by (rule sortSlice_cong) (rule workerPool_deadlineFree [OF assms])
  ultimately show ?thesis using False
    by (simp add: main_def completeRun_def Let_def)
qed

section \<open>Worker count and the empty job set\<close>

lemma wrap64_id: "- (2 ^ 63) \<le> x \<Longrightarrow> x < 2 ^ 63 \<Longrightarrow> wrap64 x = x"
  by (simp add: wrap64_def)

lemma numWorkers_min:
  assumes "1 \<le> numCPU" and "numCPU * 3 < 2 ^ 63"
  shows "numWorkers numCPU numJobs = min 20 (min (int numJobs) (numCPU * 3))"
proof -
  from assms have "wrap64 (numCPU * 3) = numCPU * 3"
    by (intro wrap64_id) simp_all
  then show ?thesis by (simp add: numWorkers_def Let_def min_def)
qed

text \<open>
  C8. With at least one job, and a CPU count whose triple fits Go's int, main starts
  min(20, numJobs, numCPU * 3) workers. With no job it starts none and prints that the
  cluster holds no namespaced custom resources, whatever the schedule.
\<close>

theorem numWorkers_policy:
  "(0 < length (filterCRDs items) \<and> 1 \<le> numCPU \<and> numCPU * 3 < 2 ^ 63 \<longrightarrow>
      int (workersStarted (main fl currentContext numCPU (Inr items) dc sched))
        = min 20 (min (int (length (filterCRDs items))) (numCPU * 3)))
   \<and> (length (filterCRDs items) = 0 \<longrightarrow>
        main fl currentContext numCPU (Inr items) dc sched
          = \<lparr> workersStarted = 0,
              outcome = Printed (''No namespaced custom resources found in cluster'' @ newline) \<rparr>)"
proof (intro conjI impI)
  assume h: "0 < length (filterCRDs items) \<and> 1 \<le> numCPU \<and> numCPU * 3 < 2 ^ 63"
  then have nw: "numWorkers numCPU (length (filterCRDs items))
      = min 20 (min (int (length (filterCRDs items))) (numCPU * 3))"
    by (simp add: numWorkers_min)
  from h have pos: "0 \<le> min 20 (min (int (length (filterCRDs items))) (numCPU * 3))"
    by simp
  from h have "workersStarted (main fl currentContext numCPU (Inr items) dc sched)
      = nat (numWorkers numCPU (length (filterCRDs items)))"
    by (simp add: main_def Let_def split: sum.splits)
  with nw pos show "int (workersStarted (main fl currentContext numCPU (Inr items) dc sched))
      = min 20 (min (int (length (filterCRDs items))) (numCPU * 3))"
    by simp
next
  assume "length (filterCRDs items) = 0"
  then show "main fl currentContext numCPU (Inr items) dc sched
      = \<lparr> workersStarted = 0,
          outcome = Printed (''No namespaced custom resources found in cluster'' @ newline) \<rparr>"
    by (simp add: main_def)
qed

lemma filterCRDs_scenario: "filterCRDs [widgets, gadgets] = [widgetsJob, gadgetsJob]"
  by (simp add: widgets_def gadgets_def widgetsJob_def gadgetsJob_def mkCRD_def mkVersion_def
      getStoredVersion_def mkGVR_def Let_def)

theorem numWorkers_policy_witness:
  "0 < length (filterCRDs [widgets, gadgets])
   \<and> int (workersStarted (main flagsAll None 8 (Inr [widgets, gadgets]) cluster schedA)) = 2
   \<and> length (filterCRDs []) = 0
   \<and> main flagsAll None 8 (Inr []) cluster schedA
       = \<lparr> workersStarted = 0,
           outcome = Printed (''No namespaced custom resources found in cluster'' @ newline) \<rparr>"
proof -
  have len: "length (filterCRDs [widgets, gadgets]) = 2"
    unfolding filterCRDs_scenario by simp
  then have a: "0 < length (filterCRDs [widgets, gadgets]) \<and> (1::int) \<le> 8
      \<and> (8::int) * 3 < 2 ^ 63"
    by simp
  have b: "length (filterCRDs []) = 0" by simp
  from numWorkers_policy [of "[widgets, gadgets]" 8 flagsAll None cluster schedA] a
  have "int (workersStarted (main flagsAll None 8 (Inr [widgets, gadgets]) cluster schedA))
      = min 20 (min (int (length (filterCRDs [widgets, gadgets]))) (8 * 3))"
    by blast
  then have c: "int (workersStarted (main flagsAll None 8 (Inr [widgets, gadgets]) cluster
      schedA)) = 2"
    unfolding len by simp
  from numWorkers_policy [of "[]" 8 flagsAll None cluster schedA] b
  have d: "main flagsAll None 8 (Inr []) cluster schedA
       = \<lparr> workersStarted = 0,
           outcome = Printed (''No namespaced custom resources found in cluster'' @ newline) \<rparr>"
    by blast
  from a b c d show ?thesis by blast
qed

section \<open>All-namespaces mode\<close>

lemma resolveNamespace_all: "allNamespacesFlag fl \<Longrightarrow> resolveNamespace fl currentContext = ''''"
  by (simp add: resolveNamespace_def)

lemma set_concat_batches:
  "job \<in> set jobs \<Longrightarrow> set (batchOf dc ns alln job) \<subseteq> set (concat (map (batchOf dc ns alln) jobs))"
  by auto

text \<open>
  C7. With the all-namespaces flag set, the namespace selector is cleared: the run is the
  same whatever the selector and the namespace of the context are, and every instance
  query is the list call across all namespaces. The namespace of a found resource, and
  the first column of its row, is the namespace the instance carries in the answer; in a
  run that does not observe the deadline every instance the query returns for an
  eligible CRD has its row in the table.
\<close>

theorem all_namespaces_mode:
  assumes "allNamespacesFlag fl"
  shows "resolveNamespace fl currentContext = ''''
   \<and> listInstances dc g (resolveNamespace fl currentContext) (allNamespacesFlag fl) = dc g None
   \<and> main fl currentContext numCPU crdList dc sched
       = main (fl\<lparr> namespaceFlag := selector \<rparr>) otherContext numCPU crdList dc sched
   \<and> namespace (foundOf job item) = GetNamespace item
   \<and> row4 (foundOf job item)
       = GetNamespace item @ tab @ Name (crd job) @ tab @ gvrResource (gvr job) @ tab
         @ GetName item @ newline
   \<and> (deadlineFree (nat (numWorkers numCPU (length (filterCRDs items))))
         (length (filterCRDs items)) sched
       \<and> job \<in> set (filterCRDs items) \<and> dc (gvr job) None = Inr found \<and> item \<in> set found
       \<longrightarrow> (\<exists>rows. outcome (main fl currentContext numCPU (Inr items) dc sched)
                   = Table (header4 @ concat (map row4 rows))
                 \<and> foundOf job item \<in> set rows))"
proof -
  have ns: "resolveNamespace fl currentContext = ''''"
    using assms by (rule resolveNamespace_all)
  have q: "listInstances dc g (resolveNamespace fl currentContext) (allNamespacesFlag fl)
      = dc g None"
    using assms by (simp add: listInstances_def)
  have sel: "main fl currentContext numCPU crdList dc sched
      = main (fl\<lparr> namespaceFlag := selector \<rparr>) otherContext numCPU crdList dc sched"
    using assms by (simp add: main_def resolveNamespace_def)
  have f: "namespace (foundOf job item) = GetNamespace item"
    by (simp add: foundOf_def)
  have r: "row4 (foundOf job item)
      = GetNamespace item @ tab @ Name (crd job) @ tab @ gvrResource (gvr job) @ tab
        @ GetName item @ newline"
    by (simp add: row4_def foundOf_def)
  have d: "deadlineFree (nat (numWorkers numCPU (length (filterCRDs items))))
         (length (filterCRDs items)) sched
       \<and> job \<in> set (filterCRDs items) \<and> dc (gvr job) None = Inr found \<and> item \<in> set found
       \<longrightarrow> (\<exists>rows. outcome (main fl currentContext numCPU (Inr items) dc sched)
                   = Table (header4 @ concat (map row4 rows))
                 \<and> foundOf job item \<in> set rows)"
  proof (intro impI, elim conjE)
    assume free: "deadlineFree (nat (numWorkers numCPU (length (filterCRDs items))))
         (length (filterCRDs items)) sched"
      and job: "job \<in> set (filterCRDs items)"
      and ans: "dc (gvr job) None = Inr found" and item: "item \<in> set found"
    let ?all = "concat (map (batchOf dc '''' True) (filterCRDs items))"
    let ?rows = "sortSlice resultLess ?all"
    from ans item have "foundOf job item \<in> set (batchOf dc '''' True job)"
      by (simp add: batchOf_def listInstances_def)
    with job have inAll: "foundOf job item \<in> set ?all"
      using set_concat_batches [of job "filterCRDs items" dc "''''" True] by blast
    then have inRows: "foundOf job item \<in> set ?rows"
      by (simp only: set_sortSlice)
    then have "?rows \<noteq> []" by auto
    moreover from job have "filterCRDs items \<noteq> []" by auto
    ultimately have "outcome (main fl currentContext numCPU (Inr items) dc sched)
        = Table (header4 @ concat (map row4 ?rows))"
      using assms ns by (simp add: main_deadlineFree [OF free] completeRun_def render_def)
    with inRows show "\<exists>rows. outcome (main fl currentContext numCPU (Inr items) dc sched)
                   = Table (header4 @ concat (map row4 rows))
                 \<and> foundOf job item \<in> set rows"
      by blast
  qed
  from ns q sel f r d show ?thesis by blast
qed

section \<open>The scenario, evaluated\<close>

lemma numWorkers_8_2: "nat (numWorkers 8 2) = 2"
  by (simp add: numWorkers_def wrap64_def)

lemma length_scenario: "length (filterCRDs [widgets, gadgets]) = 2"
  unfolding filterCRDs_scenario by simp

lemma deadlineFree_schedA:
  "deadlineFree (nat (numWorkers 8 (length (filterCRDs [widgets, gadgets]))))
     (length (filterCRDs [widgets, gadgets])) schedA"
  unfolding length_scenario numWorkers_8_2 by (simp add: deadlineFree_def schedA_def)

lemma deadlineFree_schedB:
  "deadlineFree (nat (numWorkers 8 (length (filterCRDs [widgets, gadgets]))))
     (length (filterCRDs [widgets, gadgets])) schedB"
  unfolding length_scenario numWorkers_8_2 by (simp add: deadlineFree_def schedB_def)

lemma batch_widgets_all:
  "batchOf cluster [] True widgetsJob
     = [mkFound ''widgets.example.io'' ''widgets'' ''foo'' ''ns1'']"
  by (simp add: batchOf_def listInstances_def cluster_def widgetsJob_def widgets_def mkCRD_def
      foundOf_def mkFound_def mkItem_def)

lemma batch_gadgets_all:
  "batchOf cluster [] True gadgetsJob
     = [mkFound ''gadgets.example.io'' ''gadgets'' ''baz'' ''ns2'',
        mkFound ''gadgets.example.io'' ''gadgets'' ''bar'' ''ns1'']"
  by (simp add: batchOf_def listInstances_def cluster_def gadgetsJob_def gadgets_def mkCRD_def
      foundOf_def mkFound_def mkItem_def)

lemma sorted_scenario:
  "sortSlice resultLess
     [mkFound ''widgets.example.io'' ''widgets'' ''foo'' ''ns1'',
      mkFound ''gadgets.example.io'' ''gadgets'' ''baz'' ''ns2'',
      mkFound ''gadgets.example.io'' ''gadgets'' ''bar'' ''ns1'']
   = [mkFound ''gadgets.example.io'' ''gadgets'' ''bar'' ''ns1'',
      mkFound ''gadgets.example.io'' ''gadgets'' ''baz'' ''ns2'',
      mkFound ''widgets.example.io'' ''widgets'' ''foo'' ''ns1'']"
  by (simp add: resultLess_def mkFound_def)

text \<open>The rows of the specification's scenario, in its order.\<close>

lemma completeRun_scenario:
  "completeRun flagsAll None 8 [widgets, gadgets] cluster
   = \<lparr> workersStarted = 2,
       outcome = Table (header4
         @ row4 (mkFound ''gadgets.example.io'' ''gadgets'' ''bar'' ''ns1'')
         @ row4 (mkFound ''gadgets.example.io'' ''gadgets'' ''baz'' ''ns2'')
         @ row4 (mkFound ''widgets.example.io'' ''widgets'' ''foo'' ''ns1'')) \<rparr>"
proof -
  have ns: "resolveNamespace flagsAll None = []" and alln: "allNamespacesFlag flagsAll"
    by (simp_all add: resolveNamespace_def flagsAll_def)
  have len: "length [widgetsJob, gadgetsJob] = 2" by simp
  have all: "concat (map (batchOf cluster [] True) [widgetsJob, gadgetsJob])
      = [mkFound ''widgets.example.io'' ''widgets'' ''foo'' ''ns1'',
         mkFound ''gadgets.example.io'' ''gadgets'' ''baz'' ''ns2'',
         mkFound ''gadgets.example.io'' ''gadgets'' ''bar'' ''ns1'']"
    by (simp add: batch_widgets_all batch_gadgets_all)
  show ?thesis
    unfolding completeRun_def filterCRDs_scenario ns eqTrueI [OF alln] all sorted_scenario len
      numWorkers_8_2
    by (simp add: render_def)
qed

theorem all_namespaces_mode_witness:
  "allNamespacesFlag flagsAll
   \<and> resolveNamespace flagsAll (Some ''team-a'') = ''''
   \<and> main flagsAll (Some ''team-a'') 8 (Inr [widgets, gadgets]) cluster schedA
       = main (flagsAll\<lparr> namespaceFlag := ''ns2'' \<rparr>) None 8 (Inr [widgets, gadgets]) cluster schedA
   \<and> deadlineFree (nat (numWorkers 8 (length (filterCRDs [widgets, gadgets]))))
       (length (filterCRDs [widgets, gadgets])) schedA
   \<and> gadgetsJob \<in> set (filterCRDs [widgets, gadgets])
   \<and> cluster (gvr gadgetsJob) None = Inr [mkItem ''baz'' ''ns2'', mkItem ''bar'' ''ns1'']
   \<and> (\<exists>rows. outcome (main flagsAll (Some ''team-a'') 8 (Inr [widgets, gadgets]) cluster schedA)
          = Table (header4 @ concat (map row4 rows))
        \<and> foundOf gadgetsJob (mkItem ''baz'' ''ns2'') \<in> set rows)"
proof -
  have h0: "allNamespacesFlag flagsAll" by (simp add: flagsAll_def)
  note h1 = deadlineFree_schedA
  have h2: "gadgetsJob \<in> set (filterCRDs [widgets, gadgets])"
    unfolding filterCRDs_scenario by simp
  have h3: "cluster (gvr gadgetsJob) None = Inr [mkItem ''baz'' ''ns2'', mkItem ''bar'' ''ns1'']"
    by (simp add: cluster_def gadgetsJob_def)
  have h4: "mkItem ''baz'' ''ns2'' \<in> set [mkItem ''baz'' ''ns2'', mkItem ''bar'' ''ns1'']"
    by simp
  note inst = all_namespaces_mode [OF h0, where currentContext = "Some ''team-a''"
      and numCPU = 8 and dc = cluster and sched = schedA and job = gadgetsJob
      and item = "mkItem ''baz'' ''ns2''" and items = "[widgets, gadgets]"
      and found = "[mkItem ''baz'' ''ns2'', mkItem ''bar'' ''ns1'']"]
  from inst [where crdList = "Inr [widgets, gadgets]" and selector = "''ns2''"
      and otherContext = None] h0 h1 h2 h3 h4
  show ?thesis by blast
qed

section \<open>One failing instance query\<close>

lemma render_not_Fatal: "render alln ns rs \<noteq> Fatal m"
  by (simp add: render_def)

lemma crdWorker_cong:
  assumes "\<And>k. batchOf dc ns alln k = batchOf dc' ns alln k"
  shows "crdWorker dc ns alln ps = crdWorker dc' ns alln ps"
proof -
  have "stops dc ns alln p = stops dc' ns alln p" for p
    by (cases p) (simp add: stops_def assms)
  then show ?thesis
    by (simp add: crdWorker_takeWhile assms)
qed

lemma main_cong:
  assumes "\<And>k. batchOf dc (resolveNamespace fl cur) (allNamespacesFlag fl) k
      = batchOf dc' (resolveNamespace fl cur) (allNamespacesFlag fl) k"
  shows "main fl cur numCPU crdList dc sched = main fl cur numCPU crdList dc' sched"
proof -
  have "workerPool dc (resolveNamespace fl cur) (allNamespacesFlag fl) n q sched
      = workerPool dc' (resolveNamespace fl cur) (allNamespacesFlag fl) n q sched" for n q
    unfolding workerPool_def
    using crdWorker_cong [of dc "resolveNamespace fl cur" "allNamespacesFlag fl" dc', OF assms]
    by simp
  then show ?thesis
    by (simp add: main_def Let_def split: sum.splits)
qed

lemma main_Fatal:
  assumes "outcome (main fl cur numCPU (Inr items) dc sched) = Fatal m"
  shows "m = timeoutMessage"
proof (cases "sendJobs (filterCRDs items) (dispatchDone sched)")
  case (Inl m')
  with assms sendJobs_message [of "filterCRDs items" "dispatchDone sched" m']
  show ?thesis
    by (simp add: main_def Let_def split: if_splits)
next
  case (Inr q)
  with assms show ?thesis
    by (simp add: main_def Let_def render_not_Fatal split: if_splits)
qed

text \<open>
  C5, as the code has it. When the instance query of one job fails while those of all other jobs succeed, the
  run is, whatever the schedule, the very run one gets when that query returns an empty
  list instead: the job adds no entry and its error shows nowhere; the only
  \<open>log.Fatalf\<close> such a run can end in is the timeout of the dispatch loop. If the run
  does not observe the deadline, the result set consists of the batches of the other jobs
  and of nothing else, so every instance the other queries returned is in it, and the run
  does not end in \<open>log.Fatalf\<close>.
\<close>

theorem failing_query_isolated:
  assumes jobs: "filterCRDs items = pre @ job # post"
    and fails: "listInstances dc (gvr job) (resolveNamespace fl cur) (allNamespacesFlag fl)
                  = Inl err"
    and others: "list_all (\<lambda>k. \<exists>found. listInstances dc (gvr k) (resolveNamespace fl cur)
                   (allNamespacesFlag fl) = Inr found) (pre @ post)"
  shows "main fl cur numCPU (Inr items) dc sched
         = main fl cur numCPU (Inr items) (\<lambda>g target. if g = gvr job then Inr [] else dc g target)
             sched
     \<and> (\<forall>m. outcome (main fl cur numCPU (Inr items) dc sched) = Fatal m
            \<longrightarrow> m = timeoutMessage)
     \<and> (deadlineFree (nat (numWorkers numCPU (length (filterCRDs items))))
           (length (filterCRDs items)) sched
        \<longrightarrow> (\<exists>rs. outcome (main fl cur numCPU (Inr items) dc sched)
                     = render (allNamespacesFlag fl) (resolveNamespace fl cur) rs
                   \<and> mset rs = mset (concat (map
                       (batchOf dc (resolveNamespace fl cur) (allNamespacesFlag fl)) (pre @ post)))
                   \<and> (\<forall>k \<in> set (pre @ post). \<forall>found.
                         listInstances dc (gvr k) (resolveNamespace fl cur) (allNamespacesFlag fl)
                           = Inr found
                         \<longrightarrow> (\<forall>i \<in> set found. foundOf k i \<in> set rs)))
            \<and> (\<forall>m. outcome (main fl cur numCPU (Inr items) dc sched) \<noteq> Fatal m))"
proof (intro conjI impI)
  let ?ns = "resolveNamespace fl cur" and ?alln = "allNamespacesFlag fl"
  let ?dc' = "\<lambda>g target. if g = gvr job then Inr [] else dc g target"
  have same: "batchOf dc ?ns ?alln k = batchOf ?dc' ?ns ?alln k" for k
  proof (cases "gvr k = gvr job")
    case True
    with fails show ?thesis by (simp add: batchOf_def listInstances_def)
  next
    case False
    then show ?thesis by (simp add: batchOf_def listInstances_def)
  qed
  show "main fl cur numCPU (Inr items) dc sched = main fl cur numCPU (Inr items) ?dc' sched"
    by (rule main_cong) (rule same)
next
  show "\<forall>m. outcome (main fl cur numCPU (Inr items) dc sched) = Fatal m
      \<longrightarrow> m = timeoutMessage"
    by (blast dest: main_Fatal)
next
  let ?ns = "resolveNamespace fl cur" and ?alln = "allNamespacesFlag fl"
  let ?rs = "sortSlice resultLess (concat (map (batchOf dc ?ns ?alln) (filterCRDs items)))"
  assume free: "deadlineFree (nat (numWorkers numCPU (length (filterCRDs items))))
      (length (filterCRDs items)) sched"
  have run: "main fl cur numCPU (Inr items) dc sched = completeRun fl cur numCPU items dc"
    by (rule main_deadlineFree [OF free])
  have nonempty: "filterCRDs items \<noteq> []" using jobs by simp
  have out: "outcome (main fl cur numCPU (Inr items) dc sched) = render ?alln ?ns ?rs"
    using nonempty by (simp add: run completeRun_def)
  have dropped: "batchOf dc ?ns ?alln job = []"
    using fails by (simp add: batchOf_def)
  have "mset ?rs = mset (concat (map (batchOf dc ?ns ?alln) (pre @ job # post)))"
    by (simp only: mset_sortSlice jobs)
  also have "\<dots> = mset (concat (map (batchOf dc ?ns ?alln) (pre @ post)))"
    using dropped by simp
  finally have ms: "mset ?rs = mset (concat (map (batchOf dc ?ns ?alln) (pre @ post)))" .
  have present: "\<forall>k \<in> set (pre @ post). \<forall>found.
        listInstances dc (gvr k) ?ns ?alln = Inr found \<longrightarrow> (\<forall>i \<in> set found. foundOf k i \<in> set ?rs)"
  proof (intro ballI allI impI)
    fix k found i
    assume k: "k \<in> set (pre @ post)" and ans: "listInstances dc (gvr k) ?ns ?alln = Inr found"
      and i: "i \<in> set found"
    from ans i have "foundOf k i \<in> set (batchOf dc ?ns ?alln k)"
      by (simp add: batchOf_def)
    moreover from k jobs have "k \<in> set (filterCRDs items)" by auto
    ultimately have "foundOf k i \<in> set (concat (map (batchOf dc ?ns ?alln) (filterCRDs items)))"
      using set_concat_batches [of k "filterCRDs items" dc ?ns ?alln] by blast
    then show "foundOf k i \<in> set ?rs" by (simp only: set_sortSlice)
  qed
  from out ms present
  show "\<exists>rs. outcome (main fl cur numCPU (Inr items) dc sched) = render ?alln ?ns rs
      \<and> mset rs = mset (concat (map (batchOf dc ?ns ?alln) (pre @ post)))
      \<and> (\<forall>k \<in> set (pre @ post). \<forall>found.
            listInstances dc (gvr k) ?ns ?alln = Inr found
            \<longrightarrow> (\<forall>i \<in> set found. foundOf k i \<in> set rs))"
    by blast
  show "\<forall>m. outcome (main fl cur numCPU (Inr items) dc sched) \<noteq> Fatal m"
    by (simp add: out render_not_Fatal)
qed

lemma batch_widgets_forbidden:
  "batchOf clusterGadgetsForbidden [] True widgetsJob
     = [mkFound ''widgets.example.io'' ''widgets'' ''foo'' ''ns1'']"
  by (simp add: batchOf_def listInstances_def clusterGadgetsForbidden_def cluster_def
      widgetsJob_def widgets_def mkCRD_def foundOf_def mkFound_def mkItem_def)

theorem failing_query_isolated_witness:
  "filterCRDs [widgets, gadgets] = [widgetsJob] @ gadgetsJob # []
   \<and> deadlineFree (nat (numWorkers 8 (length (filterCRDs [widgets, gadgets]))))
       (length (filterCRDs [widgets, gadgets])) schedA
   \<and> listInstances clusterGadgetsForbidden (gvr gadgetsJob) (resolveNamespace flagsAll None)
       (allNamespacesFlag flagsAll) = Inl ''forbidden''
   \<and> list_all (\<lambda>k. \<exists>found. listInstances clusterGadgetsForbidden (gvr k)
        (resolveNamespace flagsAll None) (allNamespacesFlag flagsAll) = Inr found)
        ([widgetsJob] @ [])
   \<and> (\<exists>rs. outcome (main flagsAll None 8 (Inr [widgets, gadgets]) clusterGadgetsForbidden schedA)
          = render True [] rs
        \<and> mset rs = {# mkFound ''widgets.example.io'' ''widgets'' ''foo'' ''ns1'' #})
   \<and> main flagsAll None 8 (Inr [widgets, gadgets]) clusterGadgetsForbidden schedA
       = main flagsAll None 8 (Inr [widgets, gadgets])
           (\<lambda>g target. if g = gvr gadgetsJob then Inr [] else clusterGadgetsForbidden g target)
           schedA"
proof -
  have ns: "resolveNamespace flagsAll None = []" and alln: "allNamespacesFlag flagsAll = True"
    by (simp_all add: resolveNamespace_def flagsAll_def)
  have h1: "filterCRDs [widgets, gadgets] = [widgetsJob] @ gadgetsJob # []"
    unfolding filterCRDs_scenario by simp
  note h2 = deadlineFree_schedA
  have h3: "listInstances clusterGadgetsForbidden (gvr gadgetsJob)
      (resolveNamespace flagsAll None) (allNamespacesFlag flagsAll) = Inl ''forbidden''"
    by (simp add: listInstances_def clusterGadgetsForbidden_def gadgetsJob_def)
  have h4: "list_all (\<lambda>k. \<exists>found. listInstances clusterGadgetsForbidden (gvr k)
        (resolveNamespace flagsAll None) (allNamespacesFlag flagsAll) = Inr found)
        ([widgetsJob] @ [])"
    by (simp add: listInstances_def clusterGadgetsForbidden_def cluster_def widgetsJob_def ns alln)
  note inst = failing_query_isolated [OF h1 h3 h4, of 8 schedA]
  from inst h2 obtain rs where
    "outcome (main flagsAll None 8 (Inr [widgets, gadgets]) clusterGadgetsForbidden schedA)
       = render (allNamespacesFlag flagsAll) (resolveNamespace flagsAll None) rs"
    and "mset rs = mset (concat (map (batchOf clusterGadgetsForbidden
       (resolveNamespace flagsAll None) (allNamespacesFlag flagsAll)) ([widgetsJob] @ [])))"
    by blast
  then have "\<exists>rs. outcome (main flagsAll None 8 (Inr [widgets, gadgets])
          clusterGadgetsForbidden schedA) = render True [] rs
        \<and> mset rs = {# mkFound ''widgets.example.io'' ''widgets'' ''foo'' ''ns1'' #}"
    unfolding ns alln by (simp add: batch_widgets_forbidden)
  with inst h1 h2 h3 h4 show ?thesis by blast
qed

section \<open>Determinism\<close>

lemma main_arrivals:
  "main fl cur numCPU crdList dc (sched\<lparr> arrivals := order \<rparr>) = main fl cur numCPU crdList dc sched"
proof -
  have "sortSlice resultLess (concat (workerPool dc ns alln n q (sched\<lparr> arrivals := order \<rparr>)))
      = sortSlice resultLess (concat (workerPool dc ns alln n q sched))" for ns alln n q
    by (rule sortSlice_cong) (simp add: workerPool_def mset_concat_interleave)
  then show ?thesis
    by (simp add: main_def Let_def split: sum.splits)
qed

text \<open>
  C6, as the code has it. Two runs on the same catalog and the same answers of the
  instance queries, neither of which observes the deadline, end with the same output,
  whichever worker receives which job and in whichever order the batches arrive. The
  order of arrival alone never changes a run, and neither does the schedule when the CRD
  list call fails.
\<close>

theorem output_deterministic:
  "(deadlineFree (nat (numWorkers numCPU (length (filterCRDs items))))
       (length (filterCRDs items)) sched1
    \<and> deadlineFree (nat (numWorkers numCPU (length (filterCRDs items))))
       (length (filterCRDs items)) sched2
    \<longrightarrow> main fl cur numCPU (Inr items) dc sched1 = main fl cur numCPU (Inr items) dc sched2)
   \<and> main fl cur numCPU crdList dc (sched\<lparr> arrivals := order \<rparr>)
       = main fl cur numCPU crdList dc sched
   \<and> main fl cur numCPU (Inl err) dc sched1 = main fl cur numCPU (Inl err) dc sched2"
  by (simp add: main_deadlineFree main_arrivals) (simp add: main_def)

theorem output_deterministic_witness:
  "deadlineFree (nat (numWorkers 8 (length (filterCRDs [widgets, gadgets]))))
       (length (filterCRDs [widgets, gadgets])) schedA
   \<and> deadlineFree (nat (numWorkers 8 (length (filterCRDs [widgets, gadgets]))))
       (length (filterCRDs [widgets, gadgets])) schedB
   \<and> schedA \<noteq> schedB
   \<and> main flagsAll None 8 (Inr [widgets, gadgets]) cluster schedA
       = main flagsAll None 8 (Inr [widgets, gadgets]) cluster schedB
   \<and> main flagsAll None 8 (Inr [widgets, gadgets]) cluster schedB
       = \<lparr> workersStarted = 2,
           outcome = Table (header4
             @ row4 (mkFound ''gadgets.example.io'' ''gadgets'' ''bar'' ''ns1'')
             @ row4 (mkFound ''gadgets.example.io'' ''gadgets'' ''baz'' ''ns2'')
             @ row4 (mkFound ''widgets.example.io'' ''widgets'' ''foo'' ''ns1'')) \<rparr>"
proof -
  note a = deadlineFree_schedA and b = deadlineFree_schedB
  have c: "schedA \<noteq> schedB" by (simp add: schedA_def schedB_def)
  from output_deterministic [of 8 "[widgets, gadgets]" schedA schedB flagsAll None cluster] a b
  have d: "main flagsAll None 8 (Inr [widgets, gadgets]) cluster schedA
       = main flagsAll None 8 (Inr [widgets, gadgets]) cluster schedB"
    by blast
  have e: "main flagsAll None 8 (Inr [widgets, gadgets]) cluster schedB
       = \<lparr> workersStarted = 2,
           outcome = Table (header4
             @ row4 (mkFound ''gadgets.example.io'' ''gadgets'' ''bar'' ''ns1'')
             @ row4 (mkFound ''gadgets.example.io'' ''gadgets'' ''baz'' ''ns2'')
             @ row4 (mkFound ''widgets.example.io'' ''widgets'' ''foo'' ''ns1'')) \<rparr>"
    by (simp only: main_deadlineFree [OF b] completeRun_scenario)
  from a b c d e show ?thesis by blast
qed

section \<open>What a worker publishes\<close>

lemma takeWhile_stop: "\<not> P x \<Longrightarrow> takeWhile P (xs @ x # ys) = takeWhile P xs"
  by (induction xs) auto

lemma concat_filter_nonempty: "concat (filter (\<lambda>b. b \<noteq> []) bs) = concat bs"
  by (induction bs) simp_all

lemma batchOf_nonempty:
  "batchOf dc ns alln job \<noteq> [] \<Longrightarrow>
   \<exists>found. listInstances dc (gvr job) ns alln = Inr found
     \<and> batchOf dc ns alln job = map (foundOf job) found"
  by (cases "listInstances dc (gvr job) ns alln") (simp_all add: batchOf_def)

lemma crdWorker_published:
  assumes "b \<in> set (crdWorker dc ns alln ps)"
  shows "b \<noteq> [] \<and> (\<exists>p \<in> set ps. \<not> fst (snd p) \<and> \<not> snd (snd p)
           \<and> (\<exists>found. listInstances dc (gvr (fst p)) ns alln = Inr found
                 \<and> b = map (foundOf (fst p)) found))"
proof -
  from assms obtain p where p: "p \<in> set (takeWhile (\<lambda>p. \<not> stops dc ns alln p) ps)"
    and b: "b = batchOf dc ns alln (fst p)" and ne: "b \<noteq> []"
    by (auto simp add: crdWorker_takeWhile)
  from p have inps: "p \<in> set ps" and go: "\<not> stops dc ns alln p"
    by (auto dest: set_takeWhileD)
  from go b ne have flags: "\<not> fst (snd p) \<and> \<not> snd (snd p)"
    by (cases p) (auto simp add: stops_def)
  from b ne batchOf_nonempty [of dc ns alln "fst p"]
  have "\<exists>found. listInstances dc (gvr (fst p)) ns alln = Inr found
      \<and> b = map (foundOf (fst p)) found"
    by simp
  with ne inps flags show ?thesis by blast
qed

lemma crdWorker_publishes:
  assumes "list_all (\<lambda>p. \<not> stops dc ns alln p) pre"
    and "listInstances dc (gvr job) ns alln = Inr found" and "found \<noteq> []"
  shows "map (foundOf job) found \<in> set (crdWorker dc ns alln (pre @ (job, False, False) # post))"
proof -
  from assms(2) have batch: "batchOf dc ns alln job = map (foundOf job) found"
    by (simp add: batchOf_def)
  have go: "\<not> stops dc ns alln (job, False, False)"
    by (simp add: stops_def)
  from assms(1) have "takeWhile (\<lambda>p. \<not> stops dc ns alln p) (pre @ (job, False, False) # post)
      = pre @ (job, False, False) # takeWhile (\<lambda>p. \<not> stops dc ns alln p) post"
    using go by (simp add: takeWhile_append2 list_all_iff)
  with batch assms(3) show ?thesis
    by (simp add: crdWorker_takeWhile)
qed

lemma crdWorker_cancelled:
  "stops dc ns alln p \<Longrightarrow> crdWorker dc ns alln (pre @ p # post) = crdWorker dc ns alln pre"
  by (simp add: crdWorker_takeWhile takeWhile_stop)

lemma sendJobs_no_timeout:
  assumes "True \<notin> set (take (length jobs) ds)"
  shows "sendJobs jobs ds = Inr jobs"
proof (cases "sendJobs jobs ds")
  case (Inl m)
  with assms sendJobs_Inl_iff [of jobs ds] show ?thesis by blast
next
  case (Inr q)
  with sendJobs_queue [of jobs ds q] show ?thesis by simp
qed

lemma sendJobs_timeout:
  assumes "True \<in> set (take (length jobs) ds)"
  shows "sendJobs jobs ds = Inl timeoutMessage"
proof -
  from assms sendJobs_Inl_iff [of jobs ds] obtain m where "sendJobs jobs ds = Inl m"
    by blast
  with sendJobs_message [of jobs ds m] show ?thesis by simp
qed

lemma workerPool_batches:
  "mset (concat (workerPool dc ns alln n queue sched))
     = (\<Sum>w\<leftarrow>[0..<n]. mset (concat (map (\<lambda>p. batchOf dc ns alln (fst p))
          (takeWhile (\<lambda>p. \<not> stops dc ns alln p) (workerPulls w queue (pulls sched))))))"
  by (simp add: workerPool_def mset_concat_interleave mset_concat_concat_map
      crdWorker_takeWhile concat_filter_nonempty)

lemma forbidden_gadgets:
  "listInstances clusterGadgetsForbidden (gvr gadgetsJob) [] True = Inl ''forbidden''"
  by (simp add: listInstances_def clusterGadgetsForbidden_def gadgetsJob_def)

lemma answer_widgets: "listInstances cluster (gvr widgetsJob) [] True = Inr [mkItem ''foo'' ''ns1'']"
  by (simp add: listInstances_def cluster_def widgetsJob_def)

lemma answer_gadgets:
  "listInstances cluster (gvr gadgetsJob) [] True
     = Inr [mkItem ''baz'' ''ns2'', mkItem ''bar'' ''ns1'']"
  by (simp add: listInstances_def cluster_def gadgetsJob_def)

lemma found_widgets:
  "foundOf widgetsJob (mkItem ''foo'' ''ns1'')
     = mkFound ''widgets.example.io'' ''widgets'' ''foo'' ''ns1''"
  by (simp add: foundOf_def mkFound_def mkItem_def widgetsJob_def widgets_def mkCRD_def)

lemmas scenario_defs =
  main_def flagsAll_def resolveNamespace_def widgets_def gadgets_def mkCRD_def mkVersion_def
  getStoredVersion_def mkGVR_def Let_def numWorkers_def wrap64_def workerPool_def upt_rec
  cluster_def emptyCluster_def listInstances_def mkItem_def foundOf_def resultLess_def
  render_def mkFound_def

lemma run_schedPartial:
  "outcome (main flagsAll None 8 (Inr [widgets, gadgets]) cluster schedPartial)
     = Table (header4 @ row4 (mkFound ''widgets.example.io'' ''widgets'' ''foo'' ''ns1''))"
  by (simp add: scenario_defs schedPartial_def)


lemma main_dispatch_timeout:
  assumes "filterCRDs items \<noteq> []"
    and "True \<in> set (take (length (filterCRDs items)) (dispatchDone sched))"
  shows "outcome (main fl cur numCPU (Inr items) dc sched) = Fatal timeoutMessage"
  using assms by (simp add: main_def Let_def sendJobs_timeout)

lemma main_aggregates:
  assumes "filterCRDs items \<noteq> []"
    and "True \<notin> set (take (length (filterCRDs items)) (dispatchDone sched))"
  shows "outcome (main fl cur numCPU (Inr items) dc sched)
     = render (allNamespacesFlag fl) (resolveNamespace fl cur)
         (sortSlice resultLess (concat (workerPool dc (resolveNamespace fl cur)
            (allNamespacesFlag fl) (nat (numWorkers numCPU (length (filterCRDs items))))
            (filterCRDs items) sched)))"
proof -
  from assms(2) have "sendJobs (filterCRDs items) (dispatchDone sched) = Inr (filterCRDs items)"
    by (rule sendJobs_no_timeout)
  with assms(1) show ?thesis by (simp add: main_def Let_def)
qed

lemma observe_stops:
  assumes "listInstances dc (gvr job) ns alln = Inr found" and "found \<noteq> []"
  shows "stops dc ns alln (observe (job, False, True, True))"
  using assms by (simp add: observe_def stops_def batchOf_def)

lemma observe_sends: "observe (job, False, expired, False) = (job, False, False)"
  by (simp add: observe_def)

text \<open>
  C9, as the code has it. Every batch a worker sends is non-empty and is the whole answer
  of the query of one job it received, a job at which no \<open>select\<close> took \<open><-ctx.Done()\<close>.
  A worker sends the batch of every job with a successful, non-empty answer that it runs
  before a \<open>select\<close> of its first takes \<open><-ctx.Done()\<close>; at the job where that happens it
  returns, and neither that job nor a later one adds a batch. A job whose send finds the
  deadline expired adds nothing when the runtime picks \<open><-ctx.Done()\<close> and its whole batch
  when the runtime picks the send: no part of a batch is ever sent. The \<open>results\<close>
  channel hands on every batch sent; main aggregates exactly these batches when the
  dispatch loop does not time out, and ends in \<open>log.Fatalf\<close>, aggregating none, when it
  does.
\<close>

theorem batches_whole_or_absent:
  "(\<forall>b \<in> set (crdWorker dc ns alln ps).
      b \<noteq> [] \<and> (\<exists>p \<in> set ps. \<not> fst (snd p) \<and> \<not> snd (snd p)
        \<and> (\<exists>found. listInstances dc (gvr (fst p)) ns alln = Inr found
              \<and> b = map (foundOf (fst p)) found)))
   \<and> (list_all (\<lambda>p. \<not> stops dc ns alln p) pre
        \<and> listInstances dc (gvr job) ns alln = Inr found \<and> found \<noteq> []
      \<longrightarrow> map (foundOf job) found
            \<in> set (crdWorker dc ns alln (pre @ (job, False, False) # post)))
   \<and> (stops dc ns alln p
      \<longrightarrow> crdWorker dc ns alln (pre @ p # post) = crdWorker dc ns alln pre)
   \<and> (list_all (\<lambda>p. \<not> stops dc ns alln p) pre
        \<and> listInstances dc (gvr job) ns alln = Inr found \<and> found \<noteq> []
      \<longrightarrow> crdWorker dc ns alln (pre @ observe (job, False, True, True) # post)
            = crdWorker dc ns alln pre
          \<and> map (foundOf job) found
            \<in> set (crdWorker dc ns alln (pre @ observe (job, False, True, False) # post)))
   \<and> mset (workerPool dc ns alln n queue sched)
       = mset (concat (map (\<lambda>w. crdWorker dc ns alln (workerPulls w queue (pulls sched)))
           [0..<n]))
   \<and> (filterCRDs items \<noteq> []
        \<and> True \<notin> set (take (length (filterCRDs items)) (dispatchDone sched))
      \<longrightarrow> (\<exists>rs. outcome (main fl cur numCPU (Inr items) dc sched)
                   = render (allNamespacesFlag fl) (resolveNamespace fl cur) rs
                 \<and> mset rs = mset (concat (concat (map
                     (\<lambda>w. crdWorker dc (resolveNamespace fl cur) (allNamespacesFlag fl)
                        (workerPulls w (filterCRDs items) (pulls sched)))
                     [0..<nat (numWorkers numCPU (length (filterCRDs items)))])))))
   \<and> (filterCRDs items \<noteq> []
        \<and> True \<in> set (take (length (filterCRDs items)) (dispatchDone sched))
      \<longrightarrow> outcome (main fl cur numCPU (Inr items) dc sched) = Fatal timeoutMessage)"
proof -
  have c1: "\<forall>b \<in> set (crdWorker dc ns alln ps).
      b \<noteq> [] \<and> (\<exists>p \<in> set ps. \<not> fst (snd p) \<and> \<not> snd (snd p)
        \<and> (\<exists>found. listInstances dc (gvr (fst p)) ns alln = Inr found
              \<and> b = map (foundOf (fst p)) found))"
    using crdWorker_published [of _ dc ns alln ps] by blast
  have c2: "list_all (\<lambda>p. \<not> stops dc ns alln p) pre
        \<and> listInstances dc (gvr job) ns alln = Inr found \<and> found \<noteq> []
      \<longrightarrow> map (foundOf job) found
            \<in> set (crdWorker dc ns alln (pre @ (job, False, False) # post))"
    using crdWorker_publishes [of dc ns alln pre job found post] by blast
  have c3: "stops dc ns alln p
      \<longrightarrow> crdWorker dc ns alln (pre @ p # post) = crdWorker dc ns alln pre"
    using crdWorker_cancelled [of dc ns alln p pre post] by blast
  have c4: "list_all (\<lambda>p. \<not> stops dc ns alln p) pre
        \<and> listInstances dc (gvr job) ns alln = Inr found \<and> found \<noteq> []
      \<longrightarrow> crdWorker dc ns alln (pre @ observe (job, False, True, True) # post)
            = crdWorker dc ns alln pre
          \<and> map (foundOf job) found
            \<in> set (crdWorker dc ns alln (pre @ observe (job, False, True, False) # post))"
  proof (intro impI, elim conjE)
    assume pre: "list_all (\<lambda>p. \<not> stops dc ns alln p) pre"
      and ans: "listInstances dc (gvr job) ns alln = Inr found" and ne: "found \<noteq> []"
    have "crdWorker dc ns alln (pre @ observe (job, False, True, True) # post)
        = crdWorker dc ns alln pre"
      by (rule crdWorker_cancelled) (rule observe_stops [OF ans ne])
    moreover have "map (foundOf job) found
        \<in> set (crdWorker dc ns alln (pre @ observe (job, False, True, False) # post))"
      unfolding observe_sends by (rule crdWorker_publishes [OF pre ans ne])
    ultimately show "crdWorker dc ns alln (pre @ observe (job, False, True, True) # post)
            = crdWorker dc ns alln pre
          \<and> map (foundOf job) found
            \<in> set (crdWorker dc ns alln (pre @ observe (job, False, True, False) # post))"
      by blast
  qed
  have c5: "mset (workerPool dc ns alln n queue sched)
       = mset (concat (map (\<lambda>w. crdWorker dc ns alln (workerPulls w queue (pulls sched)))
           [0..<n]))"
    by (simp add: workerPool_def mset_interleave)
  have c6: "filterCRDs items \<noteq> []
        \<and> True \<notin> set (take (length (filterCRDs items)) (dispatchDone sched))
      \<longrightarrow> (\<exists>rs. outcome (main fl cur numCPU (Inr items) dc sched)
                   = render (allNamespacesFlag fl) (resolveNamespace fl cur) rs
                 \<and> mset rs = mset (concat (concat (map
                     (\<lambda>w. crdWorker dc (resolveNamespace fl cur) (allNamespacesFlag fl)
                        (workerPulls w (filterCRDs items) (pulls sched)))
                     [0..<nat (numWorkers numCPU (length (filterCRDs items)))]))))"
  proof (intro impI, elim conjE)
    let ?ns = "resolveNamespace fl cur" and ?alln = "allNamespacesFlag fl"
    let ?n = "nat (numWorkers numCPU (length (filterCRDs items)))"
    let ?rs = "sortSlice resultLess
        (concat (workerPool dc ?ns ?alln ?n (filterCRDs items) sched))"
    assume ne: "filterCRDs items \<noteq> []"
      and no: "True \<notin> set (take (length (filterCRDs items)) (dispatchDone sched))"
    have "outcome (main fl cur numCPU (Inr items) dc sched) = render ?alln ?ns ?rs"
      by (rule main_aggregates [OF ne no])
    moreover have "mset ?rs = mset (concat (concat (map
        (\<lambda>w. crdWorker dc ?ns ?alln (workerPulls w (filterCRDs items) (pulls sched)))
        [0..<?n])))"
      by (simp only: mset_sortSlice workerPool_def mset_concat_interleave)
    ultimately show "\<exists>rs. outcome (main fl cur numCPU (Inr items) dc sched)
          = render ?alln ?ns rs
        \<and> mset rs = mset (concat (concat (map
            (\<lambda>w. crdWorker dc ?ns ?alln (workerPulls w (filterCRDs items) (pulls sched)))
            [0..<?n])))"
      by blast
  qed
  have c7: "filterCRDs items \<noteq> []
        \<and> True \<in> set (take (length (filterCRDs items)) (dispatchDone sched))
      \<longrightarrow> outcome (main fl cur numCPU (Inr items) dc sched) = Fatal timeoutMessage"
    using main_dispatch_timeout [of items sched fl cur numCPU dc] by blast
  from c1 c2 c3 c4 c5 c6 c7 show ?thesis by blast
qed

theorem batches_whole_or_absent_witness:
  "list_all (\<lambda>p. \<not> stops cluster [] True p) []
   \<and> listInstances cluster (gvr widgetsJob) [] True = Inr [mkItem ''foo'' ''ns1'']
   \<and> map (foundOf widgetsJob) [mkItem ''foo'' ''ns1'']
       \<in> set (crdWorker cluster [] True
           ([] @ (widgetsJob, False, False) # [(gadgetsJob, False, True), (widgetsJob, False, False)]))
   \<and> stops cluster [] True (gadgetsJob, False, True)
   \<and> crdWorker cluster [] True
         ([(widgetsJob, False, False)] @ (gadgetsJob, False, True) # [(widgetsJob, False, False)])
       = [[mkFound ''widgets.example.io'' ''widgets'' ''foo'' ''ns1'']]
   \<and> list_all (\<lambda>b. b \<noteq> [])
        (crdWorker cluster [] True
           [(widgetsJob, False, False), (gadgetsJob, False, True), (widgetsJob, False, False)])
   \<and> crdWorker cluster [] True
         ([] @ observe (widgetsJob, False, True, True)
            # [(gadgetsJob, False, True), (widgetsJob, False, False)])
       = crdWorker cluster [] True []
   \<and> map (foundOf widgetsJob) [mkItem ''foo'' ''ns1'']
       \<in> set (crdWorker cluster [] True
           ([] @ observe (widgetsJob, False, True, False)
              # [(gadgetsJob, False, True), (widgetsJob, False, False)]))
   \<and> filterCRDs [widgets, gadgets] \<noteq> []
   \<and> True \<notin> set (take (length (filterCRDs [widgets, gadgets])) (dispatchDone schedPartial))
   \<and> (\<exists>rs. outcome (main flagsAll None 8 (Inr [widgets, gadgets]) cluster schedPartial)
          = render (allNamespacesFlag flagsAll) (resolveNamespace flagsAll None) rs
        \<and> mset rs = mset (concat (concat (map
            (\<lambda>w. crdWorker cluster (resolveNamespace flagsAll None) (allNamespacesFlag flagsAll)
               (workerPulls w (filterCRDs [widgets, gadgets]) (pulls schedPartial)))
            [0..<nat (numWorkers 8 (length (filterCRDs [widgets, gadgets])))]))))
   \<and> outcome (main flagsAll None 8 (Inr [widgets, gadgets]) cluster schedPartial)
       = Table (header4 @ row4 (mkFound ''widgets.example.io'' ''widgets'' ''foo'' ''ns1''))
   \<and> True \<in> set (take (length (filterCRDs [widgets, gadgets])) (dispatchDone schedDispatchCut))
   \<and> outcome (main flagsAll None 8 (Inr [widgets, gadgets]) cluster schedDispatchCut)
       = Fatal timeoutMessage"
proof -
  let ?ps = "[(widgetsJob, False, False), (gadgetsJob, False, True), (widgetsJob, False, False)]"
  let ?post = "[(gadgetsJob, False, True), (widgetsJob, False, False)]"
  have h1: "list_all (\<lambda>p. \<not> stops cluster [] True p) []" by simp
  note h2 = answer_widgets
  have h3: "[mkItem ''foo'' ''ns1''] \<noteq> []" by simp
  have h4: "stops cluster [] True (gadgetsJob, False, True)"
    by (simp add: stops_def batchOf_def answer_gadgets)
  have h5: "filterCRDs [widgets, gadgets] \<noteq> []"
    unfolding filterCRDs_scenario by simp
  have h6: "True \<notin> set (take (length (filterCRDs [widgets, gadgets]))
      (dispatchDone schedPartial))"
    by (simp add: schedPartial_def)
  have h7: "True \<in> set (take (length (filterCRDs [widgets, gadgets]))
      (dispatchDone schedDispatchCut))"
    unfolding length_scenario by (simp add: schedDispatchCut_def)
  note instA = batches_whole_or_absent [where dc = cluster and ns = "[]" and alln = True
      and ps = ?ps and pre = "[]" and job = widgetsJob and found = "[mkItem ''foo'' ''ns1'']"
      and post = ?post and items = "[widgets, gadgets]" and sched = schedPartial
      and fl = flagsAll and cur = None and numCPU = 8]
  note instB = batches_whole_or_absent [where dc = cluster and ns = "[]" and alln = True
      and ps = ?ps and pre = "[(widgetsJob, False, False)]" and p = "(gadgetsJob, False, True)"
      and post = "[(widgetsJob, False, False)]" and items = "[widgets, gadgets]"
      and sched = schedDispatchCut and fl = flagsAll and cur = None and numCPU = 8]
  from instA h1 h2 h3
  have a: "map (foundOf widgetsJob) [mkItem ''foo'' ''ns1'']
       \<in> set (crdWorker cluster [] True ([] @ (widgetsJob, False, False) # ?post))"
    by blast
  from instB h4
  have cut: "crdWorker cluster [] True
         ([(widgetsJob, False, False)] @ (gadgetsJob, False, True) # [(widgetsJob, False, False)])
       = crdWorker cluster [] True [(widgetsJob, False, False)]"
    by blast
  have alone: "crdWorker cluster [] True [(widgetsJob, False, False)]
       = [[mkFound ''widgets.example.io'' ''widgets'' ''foo'' ''ns1'']]"
    by (simp add: answer_widgets found_widgets)
  from cut alone have b: "crdWorker cluster [] True
         ([(widgetsJob, False, False)] @ (gadgetsJob, False, True) # [(widgetsJob, False, False)])
       = [[mkFound ''widgets.example.io'' ''widgets'' ''foo'' ''ns1'']]"
    by (rule trans)
  from instA have c: "list_all (\<lambda>b. b \<noteq> []) (crdWorker cluster [] True ?ps)"
    unfolding list_all_iff by blast
  from instA h1 h2 h3
  have d: "crdWorker cluster [] True ([] @ observe (widgetsJob, False, True, True) # ?post)
       = crdWorker cluster [] True []"
    and e: "map (foundOf widgetsJob) [mkItem ''foo'' ''ns1'']
       \<in> set (crdWorker cluster [] True
             ([] @ observe (widgetsJob, False, True, False) # ?post))"
    by blast+
  from instA h5 h6
  have f: "\<exists>rs. outcome (main flagsAll None 8 (Inr [widgets, gadgets]) cluster schedPartial)
          = render (allNamespacesFlag flagsAll) (resolveNamespace flagsAll None) rs
        \<and> mset rs = mset (concat (concat (map
            (\<lambda>w. crdWorker cluster (resolveNamespace flagsAll None) (allNamespacesFlag flagsAll)
               (workerPulls w (filterCRDs [widgets, gadgets]) (pulls schedPartial)))
            [0..<nat (numWorkers 8 (length (filterCRDs [widgets, gadgets])))])))"
    by blast
  from instB h5 h7
  have g: "outcome (main flagsAll None 8 (Inr [widgets, gadgets]) cluster schedDispatchCut)
       = Fatal timeoutMessage"
    by blast
  from h1 h2 a h4 b c d e h5 h6 f run_schedPartial h7 g show ?thesis by blast
qed

text \<open>
  C9 as the specification states it fails in two ways. The widgets job below is in
  flight when the deadline expires: the deadline has not expired at the top of the loop
  and has at the send. The runtime picks the send, and the worker sends the whole batch.
  And in the run on \<open>schedDispatchCut\<close> worker 0 sends the batch of the widgets job, a
  job that ran without any deadline in sight, but the dispatch loop then observes the
  deadline and main ends in \<open>log.Fatalf\<close>: the batch is never aggregated.
\<close>

theorem batch_sent_after_deadline:
  "observe (widgetsJob, False, True, False) = (widgetsJob, False, False)
   \<and> crdWorker cluster [] True [observe (widgetsJob, False, True, False)]
       = [[mkFound ''widgets.example.io'' ''widgets'' ''foo'' ''ns1'']]
   \<and> crdWorker cluster [] True
         (workerPulls 0 (filterCRDs [widgets, gadgets]) (pulls schedDispatchCut))
       = [[mkFound ''widgets.example.io'' ''widgets'' ''foo'' ''ns1'']]
   \<and> main flagsAll None 8 (Inr [widgets, gadgets]) cluster schedDispatchCut
       = \<lparr> workersStarted = 2, outcome = Fatal timeoutMessage \<rparr>"
proof -
  have a: "observe (widgetsJob, False, True, False) = (widgetsJob, False, False)"
    by (rule observe_sends)
  have b: "crdWorker cluster [] True [observe (widgetsJob, False, True, False)]
       = [[mkFound ''widgets.example.io'' ''widgets'' ''foo'' ''ns1'']]"
    unfolding a by (simp add: answer_widgets found_widgets)
  have "workerPulls 0 (filterCRDs [widgets, gadgets]) (pulls schedDispatchCut)
      = [(widgetsJob, False, False)]"
    unfolding filterCRDs_scenario by (simp add: schedDispatchCut_def)
  then have c: "crdWorker cluster [] True
         (workerPulls 0 (filterCRDs [widgets, gadgets]) (pulls schedDispatchCut))
       = [[mkFound ''widgets.example.io'' ''widgets'' ''foo'' ''ns1'']]"
    by (simp only:) (simp add: answer_widgets found_widgets)
  have d: "main flagsAll None 8 (Inr [widgets, gadgets]) cluster schedDispatchCut
       = \<lparr> workersStarted = 2, outcome = Fatal timeoutMessage \<rparr>"
    by (simp add: scenario_defs schedDispatchCut_def)
  from a b c d show ?thesis by blast
qed

section \<open>Runs cut short by the deadline\<close>

text \<open>
  C4. The code breaks the claim where the deadline expires during worker execution. In
  the run on \<open>schedCut\<close> both workers observe the deadline before their first job,
  although the cluster holds three instances; the run is the same, in output and exit
  status, as the run that completes on a cluster without instances: nothing reports
  that the deadline was exceeded. The two other places where main meets the deadline do
  report it: the dispatch loop and the CRD list call end in \<open>log.Fatalf\<close> with the
  error of the context.
\<close>

theorem deadline_not_reported:
  "\<not> deadlineFree 2 2 schedCut
   \<and> deadlineFree 2 2 schedA
   \<and> batchOf cluster [] True widgetsJob \<noteq> []
   \<and> batchOf emptyCluster [] True widgetsJob = []
   \<and> batchOf emptyCluster [] True gadgetsJob = []
   \<and> main flagsAll None 8 (Inr [widgets, gadgets]) cluster schedCut
       = \<lparr> workersStarted = 2,
           outcome = Printed (''No custom resources found in any namespace'' @ newline) \<rparr>
   \<and> main flagsAll None 8 (Inr [widgets, gadgets]) emptyCluster schedA
       = \<lparr> workersStarted = 2,
           outcome = Printed (''No custom resources found in any namespace'' @ newline) \<rparr>
   \<and> outcome (main flagsAll None 8 (Inr [widgets, gadgets]) cluster schedDispatchCut)
       = Fatal ''Timeout while sending jobs: context deadline exceeded''
   \<and> outcome (main flagsAll None 8 (Inl ''context deadline exceeded'') cluster schedCut)
       = Fatal ''Error listing CRDs: context deadline exceeded''"
proof -
  have a: "\<not> deadlineFree 2 2 schedCut"
    by (simp add: deadlineFree_def schedCut_def)
  have b: "deadlineFree 2 2 schedA"
    by (simp add: deadlineFree_def schedA_def)
  have c: "batchOf cluster [] True widgetsJob \<noteq> []"
    by (simp add: batch_widgets_all)
  have d: "batchOf emptyCluster [] True widgetsJob = []"
    "batchOf emptyCluster [] True gadgetsJob = []"
    by (simp_all add: batchOf_def listInstances_def emptyCluster_def)
  have e: "main flagsAll None 8 (Inr [widgets, gadgets]) cluster schedCut
       = \<lparr> workersStarted = 2,
           outcome = Printed (''No custom resources found in any namespace'' @ newline) \<rparr>"
    by (simp add: scenario_defs schedCut_def)
  have f: "main flagsAll None 8 (Inr [widgets, gadgets]) emptyCluster schedA
       = \<lparr> workersStarted = 2,
           outcome = Printed (''No custom resources found in any namespace'' @ newline) \<rparr>"
    by (simp add: scenario_defs schedA_def)
  have g: "outcome (main flagsAll None 8 (Inr [widgets, gadgets]) cluster schedDispatchCut)
       = Fatal ''Timeout while sending jobs: context deadline exceeded''"
    by (simp add: scenario_defs schedDispatchCut_def timeoutMessage_def)
  have h: "outcome (main flagsAll None 8 (Inl ''context deadline exceeded'') cluster schedCut)
       = Fatal ''Error listing CRDs: context deadline exceeded''"
    by (simp add: main_def)
  from a b c d e f g h show ?thesis by blast
qed

text \<open>
  C5 as the specification states it fails. In both runs below the gadgets query fails
  and the widgets query succeeds. On \<open>schedDrop\<close> the worker that ran the widgets job
  finds the deadline expired at the send and the runtime picks \<open><-ctx.Done()\<close>: the
  instance foo is lost and the run reports that there are no resources. On
  \<open>schedDispatchCut\<close> the dispatch loop observes the deadline and the run ends in
  \<open>log.Fatalf\<close>.
\<close>

theorem failing_query_cut_short:
  "filterCRDs [widgets, gadgets] = [widgetsJob] @ gadgetsJob # []
   \<and> listInstances clusterGadgetsForbidden (gvr gadgetsJob) (resolveNamespace flagsAll None)
       (allNamespacesFlag flagsAll) = Inl ''forbidden''
   \<and> listInstances clusterGadgetsForbidden (gvr widgetsJob) (resolveNamespace flagsAll None)
       (allNamespacesFlag flagsAll) = Inr [mkItem ''foo'' ''ns1'']
   \<and> crdWorker clusterGadgetsForbidden [] True
         (workerPulls 0 (filterCRDs [widgets, gadgets]) (pulls schedDrop)) = []
   \<and> crdWorker clusterGadgetsForbidden [] True
         (workerPulls 1 (filterCRDs [widgets, gadgets]) (pulls schedDrop)) = []
   \<and> main flagsAll None 8 (Inr [widgets, gadgets]) clusterGadgetsForbidden schedDrop
       = \<lparr> workersStarted = 2,
           outcome = Printed (''No custom resources found in any namespace'' @ newline) \<rparr>
   \<and> main flagsAll None 8 (Inr [widgets, gadgets]) clusterGadgetsForbidden schedDispatchCut
       = \<lparr> workersStarted = 2, outcome = Fatal timeoutMessage \<rparr>"
proof -
  have ns: "resolveNamespace flagsAll None = []" and alln: "allNamespacesFlag flagsAll = True"
    by (simp_all add: resolveNamespace_def flagsAll_def)
  have a: "filterCRDs [widgets, gadgets] = [widgetsJob] @ gadgetsJob # []"
    unfolding filterCRDs_scenario by simp
  have b: "listInstances clusterGadgetsForbidden (gvr gadgetsJob)
      (resolveNamespace flagsAll None) (allNamespacesFlag flagsAll) = Inl ''forbidden''"
    unfolding ns alln by (rule forbidden_gadgets)
  have c: "listInstances clusterGadgetsForbidden (gvr widgetsJob)
      (resolveNamespace flagsAll None) (allNamespacesFlag flagsAll)
        = Inr [mkItem ''foo'' ''ns1'']"
    unfolding ns alln
    by (simp add: listInstances_def clusterGadgetsForbidden_def cluster_def widgetsJob_def)
  have d: "crdWorker clusterGadgetsForbidden [] True
         (workerPulls 0 (filterCRDs [widgets, gadgets]) (pulls schedDrop)) = []"
    unfolding filterCRDs_scenario by (simp add: schedDrop_def forbidden_gadgets)
  have e: "crdWorker clusterGadgetsForbidden [] True
         (workerPulls 1 (filterCRDs [widgets, gadgets]) (pulls schedDrop)) = []"
    unfolding filterCRDs_scenario
    by (simp add: schedDrop_def c [unfolded ns alln])
  have f: "main flagsAll None 8 (Inr [widgets, gadgets]) clusterGadgetsForbidden schedDrop
       = \<lparr> workersStarted = 2,
           outcome = Printed (''No custom resources found in any namespace'' @ newline) \<rparr>"
    by (simp add: scenario_defs clusterGadgetsForbidden_def schedDrop_def)
  have g: "main flagsAll None 8 (Inr [widgets, gadgets]) clusterGadgetsForbidden
      schedDispatchCut = \<lparr> workersStarted = 2, outcome = Fatal timeoutMessage \<rparr>"
    by (simp add: scenario_defs clusterGadgetsForbidden_def schedDispatchCut_def)
  from a b c d e f g show ?thesis by blast
qed

text \<open>
  C6 as the specification states it fails. The two runs below have the same flags, the
  same catalog and the same cluster. In the first no deadline is observed; in the second
  worker 1 observes the deadline before it runs the gadgets job. The first prints three
  rows, the second one.
\<close>

theorem schedule_changes_output:
  "main flagsAll None 8 (Inr [widgets, gadgets]) cluster schedA
     = \<lparr> workersStarted = 2,
         outcome = Table (header4
           @ row4 (mkFound ''gadgets.example.io'' ''gadgets'' ''bar'' ''ns1'')
           @ row4 (mkFound ''gadgets.example.io'' ''gadgets'' ''baz'' ''ns2'')
           @ row4 (mkFound ''widgets.example.io'' ''widgets'' ''foo'' ''ns1'')) \<rparr>
   \<and> main flagsAll None 8 (Inr [widgets, gadgets]) cluster schedPartial
     = \<lparr> workersStarted = 2,
         outcome = Table (header4
           @ row4 (mkFound ''widgets.example.io'' ''widgets'' ''foo'' ''ns1'')) \<rparr>
   \<and> main flagsAll None 8 (Inr [widgets, gadgets]) cluster schedA
     \<noteq> main flagsAll None 8 (Inr [widgets, gadgets]) cluster schedPartial"
proof -
  have a: "main flagsAll None 8 (Inr [widgets, gadgets]) cluster schedA
     = \<lparr> workersStarted = 2,
         outcome = Table (header4
           @ row4 (mkFound ''gadgets.example.io'' ''gadgets'' ''bar'' ''ns1'')
           @ row4 (mkFound ''gadgets.example.io'' ''gadgets'' ''baz'' ''ns2'')
           @ row4 (mkFound ''widgets.example.io'' ''widgets'' ''foo'' ''ns1'')) \<rparr>"
    by (simp only: main_deadlineFree [OF deadlineFree_schedA] completeRun_scenario)
  have b: "main flagsAll None 8 (Inr [widgets, gadgets]) cluster schedPartial
     = \<lparr> workersStarted = 2,
         outcome = Table (header4
           @ row4 (mkFound ''widgets.example.io'' ''widgets'' ''foo'' ''ns1'')) \<rparr>"
    by (simp add: scenario_defs schedPartial_def)
  have c: "header4
           @ row4 (mkFound ''gadgets.example.io'' ''gadgets'' ''bar'' ''ns1'')
           @ row4 (mkFound ''gadgets.example.io'' ''gadgets'' ''baz'' ''ns2'')
           @ row4 (mkFound ''widgets.example.io'' ''widgets'' ''foo'' ''ns1'')
      \<noteq> header4 @ row4 (mkFound ''widgets.example.io'' ''widgets'' ''foo'' ''ns1'')"
    by (simp add: row4_def mkFound_def)
  from a b c show ?thesis by simp
qed

end
